theory Spec2Isabelle
  imports Complex_Main
begin

section \<open>Removal of two carbonyl ligands from XYZ structure files\<close>

text \<open>
  This theory embeds \<^verbatim>\<open>xyz_remove_CO.py\<close>: the reader and writer of XYZ files, the
  search for the metal centre, the detection of metal-bound C-O pairs and the per-file
  pipeline that deletes the first two detected pairs.

  Conventions of the embedding.
  \<^item> A Python \<^verbatim>\<open>str\<close> is a \<open>string\<close>; a \<open>char\<close> stands for a code point below 256.
  \<^item> A text file is the list of its lines, as iteration over the file object yields them
    once the line terminator is removed.
  \<^item> A Python \<^verbatim>\<open>float\<close> is an exact real number or one of the special values
    \<^verbatim>\<open>inf\<close>, \<^verbatim>\<open>-inf\<close>, \<^verbatim>\<open>nan\<close>. The operations \<open>fsub\<close>, \<open>fadd\<close>, \<open>fsquare\<close> and
    \<open>math_sqrt\<close>, the parser \<open>py_float\<close> and the printer \<open>format_6f\<close> are exact: the
    rounding of binary floats, the sign of zero and the \<^verbatim>\<open>OverflowError\<close> of \<^verbatim>\<open>**\<close> on
    huge operands are not part of them. The property that compares distances with the
    thresholds is proved for \<open>find_CO_pairs_by\<close>, which takes the computation of a
    distance as a parameter, and so holds of the rounded computation of the program as
    well. The precision of a coordinate that is printed and read again depends on the
    rounding and is not treated.
  \<^item> An exception is a value of the type \<open>error\<close>; a function that may raise returns
    \<open>error + 'a\<close>, with \<open>Inl\<close> for the exception.
  \<^item> Paths are POSIX paths. The loop of \<^verbatim>\<open>main\<close> over the directory is not embedded:
    every property below is about one call of \<^verbatim>\<open>process_xyz_file\<close> or of a function
    it calls.
\<close>

subsection \<open>Exceptions and floats\<close>

datatype error = ValueError | IndexError | OSError | OverflowError

datatype pyfloat = Finite real | PosInf | NegInf | NaN

text \<open>Subtraction, addition, squaring (\<^verbatim>\<open>x ** 2\<close>) and the comparison \<^verbatim>\<open><=\<close>.\<close>

fun fsub :: "pyfloat \<Rightarrow> pyfloat \<Rightarrow> pyfloat" where
  "fsub (Finite x) (Finite y) = Finite (x - y)"
| "fsub NaN b = NaN"
| "fsub a NaN = NaN"
| "fsub PosInf PosInf = NaN"
| "fsub NegInf NegInf = NaN"
| "fsub PosInf b = PosInf"
| "fsub NegInf b = NegInf"
| "fsub (Finite x) PosInf = NegInf"
| "fsub (Finite x) NegInf = PosInf"

fun fadd :: "pyfloat \<Rightarrow> pyfloat \<Rightarrow> pyfloat" where
  "fadd (Finite x) (Finite y) = Finite (x + y)"
| "fadd NaN b = NaN"
| "fadd a NaN = NaN"
| "fadd PosInf NegInf = NaN"
| "fadd NegInf PosInf = NaN"
| "fadd PosInf b = PosInf"
| "fadd NegInf b = NegInf"
| "fadd (Finite x) PosInf = PosInf"
| "fadd (Finite x) NegInf = NegInf"

fun fsquare :: "pyfloat \<Rightarrow> pyfloat" where
  "fsquare (Finite x) = Finite (x ^ 2)"
| "fsquare PosInf = PosInf"
| "fsquare NegInf = PosInf"
| "fsquare NaN = NaN"

fun fle :: "pyfloat \<Rightarrow> pyfloat \<Rightarrow> bool" where
  "fle (Finite x) (Finite y) = (x \<le> y)"
| "fle NaN b = False"
| "fle a NaN = False"
| "fle NegInf b = True"
| "fle a PosInf = True"
| "fle PosInf b = False"
| "fle a NegInf = False"

text \<open>\<^verbatim>\<open>math.sqrt\<close> raises \<^verbatim>\<open>ValueError\<close> on a negative argument.\<close>

fun math_sqrt :: "pyfloat \<Rightarrow> error + pyfloat" where
  "math_sqrt (Finite x) = (if x < 0 then Inl ValueError else Inr (Finite (sqrt x)))"
| "math_sqrt PosInf = Inr PosInf"
| "math_sqrt NegInf = Inl ValueError"
| "math_sqrt NaN = Inr NaN"

subsection \<open>Configuration constants\<close>

definition OUTPUT_SUFFIX :: string where
  "OUTPUT_SUFFIX = ''_d''"

definition CENTER_METALS :: "string set" where
  "CENTER_METALS = {''Ir'', ''Rh'', ''Pd'', ''Pt'', ''Ni'', ''Co'', ''Fe'', ''Ru'', ''Os''}"

text \<open>
  The three thresholds are the floats the literals \<^verbatim>\<open>1.00\<close>, \<^verbatim>\<open>1.30\<close> and
  \<^verbatim>\<open>2.20\<close> denote: 1 and the binary floats nearest to 1.3 and to 2.2. The denominators
  are \<open>2 ^ 52\<close> and \<open>2 ^ 50\<close>.
\<close>

definition CO_BOND_MIN :: pyfloat where
  "CO_BOND_MIN = Finite 1"

definition CO_BOND_MAX :: pyfloat where
  "CO_BOND_MAX = Finite (5854679515581645 / 4503599627370496)"

definition M_C_MAX :: pyfloat where
  "M_C_MAX = Finite (2476979795053773 / 1125899906842624)"

subsection \<open>Geometry\<close>

type_synonym coord = "pyfloat \<times> pyfloat \<times> pyfloat"

fun distance :: "coord \<Rightarrow> coord \<Rightarrow> error + pyfloat" where
  "distance (a0, a1, a2) (b0, b1, b2) =
     math_sqrt (fadd (fadd (fsquare (fsub a0 b0)) (fsquare (fsub a1 b1)))
                     (fsquare (fsub a2 b2)))"

subsection \<open>Lists and strings of Python\<close>

text \<open>\<^verbatim>\<open>xs[i]\<close>: a negative index counts from the end, an index out of range raises.\<close>

definition py_getitem :: "'a list \<Rightarrow> int \<Rightarrow> error + 'a" where
  "py_getitem xs i =
     (let n = int (length xs); j = (if i < 0 then i + n else i)
      in if 0 \<le> j \<and> j < n then Inr (xs ! nat j) else Inl IndexError)"

text \<open>The bounds of a slice \<^verbatim>\<open>xs[lo:hi]\<close> are clamped into the list; no slice raises.\<close>

definition slice_bound :: "nat \<Rightarrow> int \<Rightarrow> nat" where
  "slice_bound n i = (if i < 0 then nat (max 0 (i + int n)) else min n (nat i))"

definition py_slice :: "'a list \<Rightarrow> int \<Rightarrow> int \<Rightarrow> 'a list" where
  "py_slice xs lo hi =
     (let l = slice_bound (length xs) lo; h = slice_bound (length xs) hi
      in take (h - l) (drop l xs))"

definition py_slice_from :: "'a list \<Rightarrow> int \<Rightarrow> 'a list" where
  "py_slice_from xs lo = drop (slice_bound (length xs) lo) xs"

text \<open>
  The characters \<^verbatim>\<open>str.isspace\<close> accepts below 256; \<^verbatim>\<open>str.strip()\<close> and
  \<^verbatim>\<open>str.split()\<close> use the same set.
\<close>

definition isspace :: "char \<Rightarrow> bool" where
  "isspace c = ((of_char c :: nat) \<in> {9, 10, 11, 12, 13, 28, 29, 30, 31, 32, 133, 160})"

definition strip :: "string \<Rightarrow> string" where
  "strip s = rev (dropWhile isspace (rev (dropWhile isspace s)))"

fun split_from :: "string \<Rightarrow> string \<Rightarrow> string list" where
  "split_from cur [] = (if cur = [] then [] else [cur])"
| "split_from cur (c # cs) =
     (if isspace c then (if cur = [] then split_from [] cs else cur # split_from [] cs)
      else split_from (cur @ [c]) cs)"

definition split :: "string \<Rightarrow> string list" where
  "split s = split_from [] s"

definition isdigit :: "char \<Rightarrow> bool" where
  "isdigit c = (48 \<le> (of_char c :: nat) \<and> (of_char c :: nat) \<le> 57)"

definition digit_value :: "char \<Rightarrow> nat" where
  "digit_value c = of_char c - 48"

definition digits_value :: "string \<Rightarrow> nat" where
  "digits_value ds = foldl (\<lambda>acc c. 10 * acc + digit_value c) 0 ds"

text \<open>
  A numeric literal may carry single underscores between digits: each underscore stands
  after a digit and before a digit.
\<close>

fun underscores_ok :: "char \<Rightarrow> string \<Rightarrow> bool" where
  "underscores_ok prev [] = (prev \<noteq> CHR ''_'')"
| "underscores_ok prev (c # cs) =
     ((if c = CHR ''_'' then isdigit prev
       else if prev = CHR ''_'' then isdigit c else True)
      \<and> underscores_ok c cs)"

definition split_sign :: "string \<Rightarrow> bool \<times> string" where
  "split_sign s =
     (case s of
        [] \<Rightarrow> (False, [])
      | c # r \<Rightarrow> if c = CHR ''-'' then (True, r) else if c = CHR ''+'' then (False, r)
                 else (False, s))"

text \<open>
  \<^verbatim>\<open>int(s)\<close> for a string without surrounding whitespace (its only call strips the
  line first): an optional sign and decimal digits. The bound recent versions of Python
  put on the number of digits is not modelled.
\<close>

definition py_int :: "string \<Rightarrow> int option" where
  "py_int s =
     (if \<not> underscores_ok (CHR 0x00) s then None
      else
        let (neg, ds) = split_sign (filter (\<lambda>c. c \<noteq> CHR ''_'') s)
        in if ds \<noteq> [] \<and> list_all isdigit ds
           then Some (if neg then - int (digits_value ds) else int (digits_value ds))
           else None)"

definition ascii_lower :: "char \<Rightarrow> char" where
  "ascii_lower c =
     (if 65 \<le> (of_char c :: nat) \<and> (of_char c :: nat) \<le> 90
      then char_of ((of_char c :: nat) + 32) else c)"

text \<open>
  The decimal part of a float literal: digits, an optional fraction, an optional exponent;
  at least one digit in the mantissa and, after \<^verbatim>\<open>e\<close>, at least one in the exponent.
\<close>

definition scale10 :: "real \<Rightarrow> int \<Rightarrow> real" where
  "scale10 x e = (if 0 \<le> e then x * 10 ^ nat e else x / 10 ^ nat (- e))"

definition parse_exponent :: "string \<Rightarrow> int option" where
  "parse_exponent s =
     (case s of
        [] \<Rightarrow> Some 0
      | c # r \<Rightarrow>
          if c = CHR ''e'' \<or> c = CHR ''E'' then
            (let (neg, ds) = split_sign r
             in if ds \<noteq> [] \<and> list_all isdigit ds
                then Some (if neg then - int (digits_value ds) else int (digits_value ds))
                else None)
          else None)"

definition parse_decimal :: "string \<Rightarrow> real option" where
  "parse_decimal s =
     (let ip = takeWhile isdigit s;
          r1 = dropWhile isdigit s;
          fp = (case r1 of [] \<Rightarrow> [] | c # r \<Rightarrow> if c = CHR ''.'' then takeWhile isdigit r else []);
          r2 = (case r1 of [] \<Rightarrow> [] | c # r \<Rightarrow> if c = CHR ''.'' then dropWhile isdigit r else r1)
      in if ip = [] \<and> fp = [] then None
         else case parse_exponent r2 of
                None \<Rightarrow> None
              | Some e \<Rightarrow>
                  Some (scale10 (real (digits_value (ip @ fp)) / 10 ^ length fp) e))"

text \<open>
  \<^verbatim>\<open>float(s)\<close> for a string without whitespace (its only call receives tokens of
  \<^verbatim>\<open>split()\<close>).
\<close>

definition py_float :: "string \<Rightarrow> pyfloat option" where
  "py_float s =
     (if \<not> underscores_ok (CHR 0x00) s then None
      else
        let (neg, body) = split_sign (filter (\<lambda>c. c \<noteq> CHR ''_'') s);
            low = map ascii_lower body
        in if low = ''inf'' \<or> low = ''infinity'' then Some (if neg then NegInf else PosInf)
           else if low = ''nan'' then Some NaN
           else case parse_decimal body of
                  None \<Rightarrow> None
                | Some r \<Rightarrow> Some (Finite (if neg then - r else r)))"

text \<open>\<^verbatim>\<open>str(n)\<close> for a natural number, and the padding of format fields.\<close>

definition digit_char :: "nat \<Rightarrow> char" where
  "digit_char d = char_of (48 + d)"

fun str_nat :: "nat \<Rightarrow> string" where
  "str_nat n = (if n < 10 then [digit_char n] else str_nat (n div 10) @ [digit_char (n mod 10)])"

declare str_nat.simps [simp del]

definition ljust :: "nat \<Rightarrow> string \<Rightarrow> string" where
  "ljust w s = s @ replicate (w - length s) (CHR '' '')"

definition rjust :: "nat \<Rightarrow> string \<Rightarrow> string" where
  "rjust w s = replicate (w - length s) (CHR '' '') @ s"

definition zero_pad :: "nat \<Rightarrow> string \<Rightarrow> string" where
  "zero_pad w s = replicate (w - length s) (CHR ''0'') @ s"

text \<open>
  \<^verbatim>\<open>format(x, ".6f")\<close>: the value rounded to six decimals, ties to even; the sign is
  kept when a negative value rounds to zero.
\<close>

definition round_half_even :: "real \<Rightarrow> int" where
  "round_half_even y =
     (let f = \<lfloor>y\<rfloor>; d = y - of_int f
      in if d < 1 / 2 then f else if 1 / 2 < d then f + 1
         else if even f then f else f + 1)"

definition format_6f :: "pyfloat \<Rightarrow> string" where
  "format_6f v =
     (case v of
        Finite x \<Rightarrow>
          (let m = nat (round_half_even (\<bar>x\<bar> * 10 ^ 6))
           in (if x < 0 then ''-'' else []) @ str_nat (m div 10 ^ 6) @ ''.''
              @ zero_pad 6 (str_nat (m mod 10 ^ 6)))
      | PosInf \<Rightarrow> ''inf''
      | NegInf \<Rightarrow> ''-inf''
      | NaN \<Rightarrow> ''nan'')"

text \<open>\<^verbatim>\<open>os.path.basename\<close> and \<^verbatim>\<open>os.path.splitext\<close> with the separator \<^verbatim>\<open>/\<close>.\<close>

definition basename :: "string \<Rightarrow> string" where
  "basename p = rev (takeWhile (\<lambda>c. c \<noteq> CHR ''/'') (rev p))"

text \<open>\<^verbatim>\<open>p.rfind(c)\<close>: the last position of a character, \<open>-1\<close> when it is absent.\<close>

definition rfind :: "string \<Rightarrow> char \<Rightarrow> int" where
  "rfind p c =
     (if c \<in> set p then int (length p) - 1 - int (length (takeWhile (\<lambda>d. d \<noteq> c) (rev p)))
      else - 1)"

definition splitext :: "string \<Rightarrow> string \<times> string" where
  "splitext p =
     (let sepIndex = rfind p (CHR ''/''); dotIndex = rfind p (CHR ''.'')
      in if sepIndex < dotIndex
            \<and> list_ex (\<lambda>c. c \<noteq> CHR ''.'')
                 (take (nat (dotIndex - (sepIndex + 1))) (drop (nat (sepIndex + 1)) p))
         then (take (nat dotIndex) p, drop (nat dotIndex) p)
         else (p, []))"

subsection \<open>The file system and the console\<close>

text \<open>
  The messages of \<^verbatim>\<open>process_xyz_file\<close>, by kind: the three skips, the warning and the
  completion report, each with the values it prints.
\<close>

datatype message =
    Skip_read_failed string error
  | Skip_no_atoms string
  | Skip_no_metal string
  | Warn_few_pairs string nat
  | Completed string nat nat nat string

text \<open>
  What the pipeline does, in the order it does it: the calls of the functions of this
  file and the lines printed.
\<close>

datatype event =
    Call_read_xyz string
  | Call_find_metal_center
  | Call_find_CO_pairs
  | Call_write_xyz string
  | Print message

record world =
  files :: "string \<rightharpoonup> string list"
  trace :: "event list"

definition log_event :: "event \<Rightarrow> world \<Rightarrow> world" where
  "log_event e w = w\<lparr>trace := trace w @ [e]\<rparr>"

subsection \<open>Reader and writer\<close>

text \<open>The loop of \<^verbatim>\<open>read_xyz\<close> over the atom lines; a blank line is passed over.\<close>

fun parse_atom_lines ::
  "string list \<Rightarrow> string list \<Rightarrow> coord list \<Rightarrow> error + (string list \<times> coord list)" where
  "parse_atom_lines [] elements coords = Inr (elements, coords)"
| "parse_atom_lines (line # rest) elements coords =
     (if strip line = [] then parse_atom_lines rest elements coords
      else
        let parts = split line
        in if length parts < 4 then Inl ValueError
           else
             let elem = parts ! 0
             in case py_float (parts ! 1) of
                  None \<Rightarrow> Inl ValueError
                | Some x \<Rightarrow>
                   (case py_float (parts ! 2) of
                      None \<Rightarrow> Inl ValueError
                    | Some y \<Rightarrow>
                       (case py_float (parts ! 3) of
                          None \<Rightarrow> Inl ValueError
                        | Some z \<Rightarrow>
                            parse_atom_lines rest (elements @ [elem]) (coords @ [(x, y, z)]))))"

text \<open>\<^verbatim>\<open>read_xyz\<close> once the lines of the file are read.\<close>

definition read_xyz_lines ::
  "string list \<Rightarrow> error + (string list \<times> coord list \<times> string \<times> string list)" where
  "read_xyz_lines lines =
     (if length lines < 2 then Inl ValueError
      else
        case py_int (strip (lines ! 0)) of
          None \<Rightarrow> Inl ValueError
        | Some n_atoms \<Rightarrow>
            let comment = lines ! 1;
                atom_lines = py_slice lines 2 (2 + n_atoms)
            in if int (length atom_lines) < n_atoms then Inl ValueError
               else
                 case parse_atom_lines atom_lines [] [] of
                   Inl e \<Rightarrow> Inl e
                 | Inr (elements, coords) \<Rightarrow>
                     Inr (elements, coords, comment, py_slice_from lines (2 + n_atoms)))"

definition read_xyz ::
  "(string \<rightharpoonup> string list) \<Rightarrow> string
     \<Rightarrow> error + (string list \<times> coord list \<times> string \<times> string list)" where
  "read_xyz fs path =
     (case fs path of None \<Rightarrow> Inl OSError | Some lines \<Rightarrow> read_xyz_lines lines)"

definition atom_line :: "string \<times> coord \<Rightarrow> string" where
  "atom_line a =
     (case a of
        (elem, (x, y, z)) \<Rightarrow>
          ljust 2 elem @ ''  '' @ rjust 12 (format_6f x) @ ''  '' @ rjust 12 (format_6f y)
          @ ''  '' @ rjust 12 (format_6f z))"

definition xyz_lines ::
  "string list \<Rightarrow> coord list \<Rightarrow> string \<Rightarrow> string list option \<Rightarrow> string list" where
  "xyz_lines elements coords comment extra_lines =
     (let n_atoms = length elements
      in [str_nat n_atoms, comment] @ map atom_line (zip elements coords)
         @ (case extra_lines of None \<Rightarrow> [] | Some ls \<Rightarrow> ls))"

definition write_xyz ::
  "string \<Rightarrow> string list \<Rightarrow> coord list \<Rightarrow> string \<Rightarrow> string list option
     \<Rightarrow> (string \<rightharpoonup> string list) \<Rightarrow> (string \<rightharpoonup> string list)" where
  "write_xyz path elements coords comment extra_lines fs =
     fs(path \<mapsto> xyz_lines elements coords comment extra_lines)"

subsection \<open>Metal centre and C-O pairs\<close>

fun first_metal :: "(nat \<times> string) list \<Rightarrow> nat option" where
  "first_metal [] = None"
| "first_metal ((i, elem) # rest) = (if elem \<in> CENTER_METALS then Some i else first_metal rest)"

definition find_metal_center :: "string list \<Rightarrow> coord list \<Rightarrow> nat option" where
  "find_metal_center elements coords = first_metal (enumerate 0 elements)"

text \<open>
  The body of the inner loop of \<^verbatim>\<open>find_CO_pairs\<close> for a carbon \<open>i\<close> and an oxygen
  \<open>j\<close>: the two distance tests, and the pair appended when both pass.
\<close>

definition check_pair ::
  "coord list \<Rightarrow> int option \<Rightarrow> nat \<Rightarrow> nat \<Rightarrow> (nat \<times> nat) list \<Rightarrow> error + (nat \<times> nat) list" where
  "check_pair coords metal_index i j co_pairs =
     (case py_getitem coords (int i) of
        Inl e \<Rightarrow> Inl e
      | Inr ci \<Rightarrow>
         (case py_getitem coords (int j) of
            Inl e \<Rightarrow> Inl e
          | Inr cj \<Rightarrow>
             (case distance ci cj of
                Inl e \<Rightarrow> Inl e
              | Inr d_co \<Rightarrow>
                  if fle CO_BOND_MIN d_co \<and> fle d_co CO_BOND_MAX then
                    (case metal_index of
                       Some m \<Rightarrow>
                        (case py_getitem coords m of
                           Inl e \<Rightarrow> Inl e
                         | Inr cm \<Rightarrow>
                            (case distance ci cm of
                               Inl e \<Rightarrow> Inl e
                             | Inr d_mc \<Rightarrow>
                                 if fle d_mc M_C_MAX then Inr (co_pairs @ [(i, j)])
                                 else Inr co_pairs))
                     | None \<Rightarrow> Inr (co_pairs @ [(i, j)]))
                  else Inr co_pairs)))"

fun oxygen_loop ::
  "coord list \<Rightarrow> int option \<Rightarrow> nat \<Rightarrow> (nat \<times> string) list \<Rightarrow> (nat \<times> nat) list
     \<Rightarrow> error + (nat \<times> nat) list" where
  "oxygen_loop coords metal_index i [] co_pairs = Inr co_pairs"
| "oxygen_loop coords metal_index i ((j, elem_j) # rest) co_pairs =
     (if elem_j \<noteq> ''O'' then oxygen_loop coords metal_index i rest co_pairs
      else
        case check_pair coords metal_index i j co_pairs of
          Inl e \<Rightarrow> Inl e
        | Inr co_pairs' \<Rightarrow> oxygen_loop coords metal_index i rest co_pairs')"

fun carbon_loop ::
  "string list \<Rightarrow> coord list \<Rightarrow> int option \<Rightarrow> (nat \<times> string) list \<Rightarrow> (nat \<times> nat) list
     \<Rightarrow> error + (nat \<times> nat) list" where
  "carbon_loop elements coords metal_index [] co_pairs = Inr co_pairs"
| "carbon_loop elements coords metal_index ((i, elem_i) # rest) co_pairs =
     (if elem_i \<noteq> ''C'' then carbon_loop elements coords metal_index rest co_pairs
      else
        case oxygen_loop coords metal_index i (enumerate 0 elements) co_pairs of
          Inl e \<Rightarrow> Inl e
        | Inr co_pairs' \<Rightarrow> carbon_loop elements coords metal_index rest co_pairs')"

text \<open>The key of a pair, \<^verbatim>\<open>tuple(sorted((c_idx, o_idx)))\<close>, and the loop that drops repeats.\<close>

definition sorted_key :: "nat \<times> nat \<Rightarrow> nat \<times> nat" where
  "sorted_key p = (case p of (c_idx, o_idx) \<Rightarrow> (min c_idx o_idx, max c_idx o_idx))"

fun unique_loop ::
  "(nat \<times> nat) list \<Rightarrow> (nat \<times> nat) set \<Rightarrow> (nat \<times> nat) list \<Rightarrow> (nat \<times> nat) list" where
  "unique_loop [] seen unique_pairs = unique_pairs"
| "unique_loop (p # rest) seen unique_pairs =
     (let key = sorted_key p
      in if key \<notin> seen then unique_loop rest (insert key seen) (unique_pairs @ [p])
         else unique_loop rest seen unique_pairs)"

definition find_CO_pairs ::
  "string list \<Rightarrow> coord list \<Rightarrow> int option \<Rightarrow> error + (nat \<times> nat) list" where
  "find_CO_pairs elements coords metal_index =
     (case carbon_loop elements coords metal_index (enumerate 0 elements) [] of
        Inl e \<Rightarrow> Inl e
      | Inr co_pairs \<Rightarrow> Inr (unique_loop co_pairs {} []))"

text \<open>
  \<^verbatim>\<open>find_CO_pairs\<close> with the computation of a distance as the parameter \<open>dist_fn\<close>. The
  program evaluates \<^verbatim>\<open>distance\<close> in binary floating point: each operation rounds its
  result and \<^verbatim>\<open>**\<close> raises \<^verbatim>\<open>OverflowError\<close> on a huge operand. The parameter stands
  for any such evaluation; with \<open>distance\<close> above in its place the four definitions below
  are \<open>check_pair\<close>, \<open>oxygen_loop\<close>, \<open>carbon_loop\<close> and \<open>find_CO_pairs\<close>.
\<close>

definition check_pair_by ::
  "(coord \<Rightarrow> coord \<Rightarrow> error + pyfloat) \<Rightarrow> coord list \<Rightarrow> int option \<Rightarrow> nat \<Rightarrow> nat
     \<Rightarrow> (nat \<times> nat) list \<Rightarrow> error + (nat \<times> nat) list" where
  "check_pair_by dist_fn coords metal_index i j co_pairs =
     (case py_getitem coords (int i) of
        Inl e \<Rightarrow> Inl e
      | Inr ci \<Rightarrow>
         (case py_getitem coords (int j) of
            Inl e \<Rightarrow> Inl e
          | Inr cj \<Rightarrow>
             (case dist_fn ci cj of
                Inl e \<Rightarrow> Inl e
              | Inr d_co \<Rightarrow>
                  if fle CO_BOND_MIN d_co \<and> fle d_co CO_BOND_MAX then
                    (case metal_index of
                       Some m \<Rightarrow>
                        (case py_getitem coords m of
                           Inl e \<Rightarrow> Inl e
                         | Inr cm \<Rightarrow>
                            (case dist_fn ci cm of
                               Inl e \<Rightarrow> Inl e
                             | Inr d_mc \<Rightarrow>
                                 if fle d_mc M_C_MAX then Inr (co_pairs @ [(i, j)])
                                 else Inr co_pairs))
                     | None \<Rightarrow> Inr (co_pairs @ [(i, j)]))
                  else Inr co_pairs)))"

fun oxygen_loop_by ::
  "(coord \<Rightarrow> coord \<Rightarrow> error + pyfloat) \<Rightarrow> coord list \<Rightarrow> int option \<Rightarrow> nat
     \<Rightarrow> (nat \<times> string) list \<Rightarrow> (nat \<times> nat) list \<Rightarrow> error + (nat \<times> nat) list" where
  "oxygen_loop_by dist_fn coords metal_index i [] co_pairs = Inr co_pairs"
| "oxygen_loop_by dist_fn coords metal_index i ((j, elem_j) # rest) co_pairs =
     (if elem_j \<noteq> ''O'' then oxygen_loop_by dist_fn coords metal_index i rest co_pairs
      else
        case check_pair_by dist_fn coords metal_index i j co_pairs of
          Inl e \<Rightarrow> Inl e
        | Inr co_pairs' \<Rightarrow> oxygen_loop_by dist_fn coords metal_index i rest co_pairs')"

fun carbon_loop_by ::
  "(coord \<Rightarrow> coord \<Rightarrow> error + pyfloat) \<Rightarrow> string list \<Rightarrow> coord list \<Rightarrow> int option
     \<Rightarrow> (nat \<times> string) list \<Rightarrow> (nat \<times> nat) list \<Rightarrow> error + (nat \<times> nat) list" where
  "carbon_loop_by dist_fn elements coords metal_index [] co_pairs = Inr co_pairs"
| "carbon_loop_by dist_fn elements coords metal_index ((i, elem_i) # rest) co_pairs =
     (if elem_i \<noteq> ''C'' then carbon_loop_by dist_fn elements coords metal_index rest co_pairs
      else
        case oxygen_loop_by dist_fn coords metal_index i (enumerate 0 elements) co_pairs of
          Inl e \<Rightarrow> Inl e
        | Inr co_pairs' \<Rightarrow> carbon_loop_by dist_fn elements coords metal_index rest co_pairs')"

definition find_CO_pairs_by ::
  "(coord \<Rightarrow> coord \<Rightarrow> error + pyfloat) \<Rightarrow> string list \<Rightarrow> coord list \<Rightarrow> int option
     \<Rightarrow> error + (nat \<times> nat) list" where
  "find_CO_pairs_by dist_fn elements coords metal_index =
     (case carbon_loop_by dist_fn elements coords metal_index (enumerate 0 elements) [] of
        Inl e \<Rightarrow> Inl e
      | Inr co_pairs \<Rightarrow> Inr (unique_loop co_pairs {} []))"

subsection \<open>The per-file pipeline\<close>

fun delete_loop :: "(nat \<times> nat) list \<Rightarrow> nat set \<Rightarrow> nat set" where
  "delete_loop [] delete_indices = delete_indices"
| "delete_loop ((c_idx, o_idx) # rest) delete_indices =
     delete_loop rest (insert o_idx (insert c_idx delete_indices))"

fun keep_loop ::
  "(nat \<times> string \<times> coord) list \<Rightarrow> nat set \<Rightarrow> string list \<Rightarrow> coord list
     \<Rightarrow> string list \<times> coord list" where
  "keep_loop [] delete_indices new_elements new_coords = (new_elements, new_coords)"
| "keep_loop ((i, elem, coord) # rest) delete_indices new_elements new_coords =
     (if i \<in> delete_indices then keep_loop rest delete_indices new_elements new_coords
      else keep_loop rest delete_indices (new_elements @ [elem]) (new_coords @ [coord]))"

text \<open>
  \<^verbatim>\<open>process_xyz_file\<close>. A failure of the reader is caught and reported; an exception of
  \<^verbatim>\<open>find_CO_pairs\<close> is not caught and ends the call (\<open>Inl\<close>).
\<close>

definition process_xyz_file :: "string \<Rightarrow> world \<Rightarrow> error + world" where
  "process_xyz_file path w =
     (let w1 = log_event (Call_read_xyz path) w
      in case read_xyz (files w1) path of
           Inl e \<Rightarrow> Inr (log_event (Print (Skip_read_failed (basename path) e)) w1)
         | Inr (elements, coords, comment, extra_lines) \<Rightarrow>
             let n_atoms = length elements
             in if n_atoms = 0 then Inr (log_event (Print (Skip_no_atoms (basename path))) w1)
                else
                  let w2 = log_event Call_find_metal_center w1
                  in case find_metal_center elements coords of
                       None \<Rightarrow> Inr (log_event (Print (Skip_no_metal (basename path))) w2)
                     | Some metal_index \<Rightarrow>
                         let w3 = log_event Call_find_CO_pairs w2
                         in case find_CO_pairs elements coords (Some (int metal_index)) of
                              Inl e \<Rightarrow> Inl e
                            | Inr co_pairs \<Rightarrow>
                                if length co_pairs < 2
                                then Inr (log_event
                                           (Print (Warn_few_pairs (basename path) (length co_pairs))) w3)
                                else
                                  let pairs_to_delete = take 2 co_pairs;
                                      delete_indices = delete_loop pairs_to_delete {};
                                      (new_elements, new_coords) =
                                         keep_loop (enumerate 0 (zip elements coords))
                                           delete_indices [] [];
                                      (base, ext) = splitext path;
                                      new_path = base @ OUTPUT_SUFFIX @ ext;
                                      w4 = log_event (Call_write_xyz new_path) w3;
                                      w5 = w4\<lparr>files := write_xyz new_path new_elements new_coords
                                                         comment (Some extra_lines) (files w4)\<rparr>
                                  in Inr (log_event
                                           (Print (Completed (basename path) n_atoms
                                                     (length new_elements) (length pairs_to_delete)
                                                     (basename new_path))) w5))"

subsection \<open>Notions used to state the properties\<close>

text \<open>
  A pair of positions passes the tests of \<^verbatim>\<open>find_CO_pairs\<close> when the body of its inner
  loop, started on the empty list, appends it.
\<close>

definition accepts :: "string list \<Rightarrow> coord list \<Rightarrow> int option \<Rightarrow> nat \<times> nat \<Rightarrow> bool" where
  "accepts elements coords metal_index p =
     (case p of
        (i, j) \<Rightarrow> elements ! i = ''C'' \<and> elements ! j = ''O''
                  \<and> check_pair coords metal_index i j [] = Inr [(i, j)])"

text \<open>The name of the file \<^verbatim>\<open>process_xyz_file\<close> writes.\<close>

definition output_path :: "string \<Rightarrow> string" where
  "output_path path = (case splitext path of (base, ext) \<Rightarrow> base @ OUTPUT_SUFFIX @ ext)"

text \<open>
  An atom record the reader rejects: fewer than four tokens, or a second, third or fourth
  token that \<^verbatim>\<open>float\<close> does not accept.
\<close>

definition malformed_record :: "string \<Rightarrow> bool" where
  "malformed_record line =
     (length (split line) < 4 \<or> py_float (split line ! 1) = None
      \<or> py_float (split line ! 2) = None \<or> py_float (split line ! 3) = None)"

subsection \<open>Structures used as concrete inputs\<close>

text \<open>
  An iridium centre with two carbonyls on the axes: C-O 1.15, Ir-C 1.9.
\<close>

definition dicarbonyl_lines :: "string list" where
  "dicarbonyl_lines =
     [''5'', ''two carbonyls'',
      ''Ir  0.0  0.0  0.0'',
      ''C   1.9  0.0  0.0'',
      ''O   3.05 0.0  0.0'',
      ''C   0.0  1.9  0.0'',
      ''O   0.0  3.05 0.0'']"

definition dicarbonyl_elements :: "string list" where
  "dicarbonyl_elements = [''Ir'', ''C'', ''O'', ''C'', ''O'']"

definition dicarbonyl_coords :: "coord list" where
  "dicarbonyl_coords =
     [(Finite 0, Finite 0, Finite 0),
      (Finite (19 / 10), Finite 0, Finite 0),
      (Finite (305 / 100), Finite 0, Finite 0),
      (Finite 0, Finite (19 / 10), Finite 0),
      (Finite 0, Finite (305 / 100), Finite 0)]"

definition dicarbonyl_world :: world where
  "dicarbonyl_world = \<lparr>files = [''run/a.xyz'' \<mapsto> dicarbonyl_lines], trace = []\<rparr>"

text \<open>
  An iron centre with one carbon bound to two oxygens (a metal-bound carboxylate): both
  C-O distances are 1.25, Fe-C is 2.
\<close>

definition carboxylate_lines :: "string list" where
  "carboxylate_lines =
     [''4'', ''one carbon, two oxygens'',
      ''Fe  0.0   0.0  0.0'',
      ''C   2.0   0.0  0.0'',
      ''O   2.75  1.0  0.0'',
      ''O   2.75 -1.0  0.0'']"

definition carboxylate_elements :: "string list" where
  "carboxylate_elements = [''Fe'', ''C'', ''O'', ''O'']"

definition carboxylate_coords :: "coord list" where
  "carboxylate_coords =
     [(Finite 0, Finite 0, Finite 0),
      (Finite 2, Finite 0, Finite 0),
      (Finite (275 / 100), Finite 1, Finite 0),
      (Finite (275 / 100), Finite (- 1), Finite 0)]"

definition carboxylate_world :: world where
  "carboxylate_world = \<lparr>files = [''m.xyz'' \<mapsto> carboxylate_lines], trace = []\<rparr>"

text \<open>A rhodium centre with a single carbonyl.\<close>

definition monocarbonyl_lines :: "string list" where
  "monocarbonyl_lines =
     [''3'', ''one carbonyl'',
      ''Rh  0.0  0.0  0.0'',
      ''C   1.9  0.0  0.0'',
      ''O   3.05 0.0  0.0'']"

definition monocarbonyl_elements :: "string list" where
  "monocarbonyl_elements = [''Rh'', ''C'', ''O'']"

definition monocarbonyl_coords :: "coord list" where
  "monocarbonyl_coords =
     [(Finite 0, Finite 0, Finite 0),
      (Finite (19 / 10), Finite 0, Finite 0),
      (Finite (305 / 100), Finite 0, Finite 0)]"

definition monocarbonyl_world :: world where
  "monocarbonyl_world = \<lparr>files = [''b.xyz'' \<mapsto> monocarbonyl_lines], trace = []\<rparr>"



text \<open>A file that declares no atom.\<close>

definition empty_world :: world where
  "empty_world = \<lparr>files = [''e.xyz'' \<mapsto> [''0'', ''nothing'']], trace = []\<rparr>"

text \<open>A file that declares two atoms and has a blank line in the place of the second.\<close>

definition blank_record_lines :: "string list" where
  "blank_record_lines = [''2'', ''second record blank'', ''C 0.0 0.0 0.0'', []]"

text \<open>The atom count a file declares: the integer its first line holds, if it has one.\<close>

definition declared_count :: "string list \<Rightarrow> int option" where
  "declared_count lines = (case lines of [] \<Rightarrow> None | l # rest \<Rightarrow> py_int (strip l))"

text \<open>A file that declares three atoms and has two records.\<close>

definition short_lines :: "string list" where
  "short_lines = [''3'', ''three declared'', ''C 0.0 0.0 0.0'', ''O 1.1 0.0 0.0'']"

text \<open>
  The same notion for \<^verbatim>\<open>find_CO_pairs\<close> with the distances computed by \<open>dist_fn\<close>.
\<close>

definition accepts_by ::
  "(coord \<Rightarrow> coord \<Rightarrow> error + pyfloat) \<Rightarrow> string list \<Rightarrow> coord list \<Rightarrow> int option
     \<Rightarrow> nat \<times> nat \<Rightarrow> bool" where
  "accepts_by dist_fn elements coords metal_index p =
     (case p of
        (i, j) \<Rightarrow> elements ! i = ''C'' \<and> elements ! j = ''O''
                  \<and> check_pair_by dist_fn coords metal_index i j [] = Inr [(i, j)])"

text \<open>
  The pairs the inner loop of \<^verbatim>\<open>find_CO_pairs\<close> appends for the carbon \<open>i\<close> while it
  runs over the enumerated elements \<open>xs\<close>.
\<close>

definition carbon_hits_by ::
  "(coord \<Rightarrow> coord \<Rightarrow> error + pyfloat) \<Rightarrow> coord list \<Rightarrow> int option \<Rightarrow> nat
     \<Rightarrow> (nat \<times> string) list \<Rightarrow> (nat \<times> nat) list" where
  "carbon_hits_by dist_fn coords m i xs =
     map (\<lambda>(j, e). (i, j))
       (filter (\<lambda>(j, e). e = ''O'' \<and> check_pair_by dist_fn coords m i j [] = Inr [(i, j)]) xs)"

section \<open>Properties\<close>

subsection \<open>Distances\<close>

text \<open>The three threshold tests on the square root of a number, without the root.\<close>

lemma fle_sqrt_lower: "0 \<le> c \<Longrightarrow> fle (Finite c) (Finite (sqrt x)) = (c ^ 2 \<le> x)"
  by (metis fle.simps(1) real_sqrt_le_iff real_sqrt_abs abs_of_nonneg)

lemma fle_sqrt_upper: "0 \<le> c \<Longrightarrow> fle (Finite (sqrt x)) (Finite c) = (x \<le> c ^ 2)"
  by (metis fle.simps(1) real_sqrt_le_iff real_sqrt_abs abs_of_nonneg)

lemma co_min_sqrt: "fle CO_BOND_MIN (Finite (sqrt x)) = (1 \<le> x)"
  using fle_sqrt_lower[of 1 x] by (simp add: CO_BOND_MIN_def)

lemma co_max_sqrt:
  "fle (Finite (sqrt x)) CO_BOND_MAX = (x \<le> (5854679515581645 / 4503599627370496) ^ 2)"
  using fle_sqrt_upper[of "5854679515581645 / 4503599627370496" x] by (simp add: CO_BOND_MAX_def)

lemma mc_max_sqrt:
  "fle (Finite (sqrt x)) M_C_MAX = (x \<le> (2476979795053773 / 1125899906842624) ^ 2)"
  using fle_sqrt_upper[of "2476979795053773 / 1125899906842624" x] by (simp add: M_C_MAX_def)

subsection \<open>The scan of \<^verbatim>\<open>find_CO_pairs\<close>\<close>


lemma check_pair_by_acc:
  "check_pair_by dist_fn coords m i j acc =
     (case check_pair_by dist_fn coords m i j [] of Inl e \<Rightarrow> Inl e | Inr l \<Rightarrow> Inr (acc @ l))"
  by (simp add: check_pair_by_def split: sum.splits option.splits)

lemma check_pair_by_cases:
  "check_pair_by dist_fn coords m i j [] = Inr l \<Longrightarrow> l = [] \<or> l = [(i, j)]"
  by (auto simp: check_pair_by_def split: sum.splits option.splits if_splits)

lemma oxygen_loop_by_hits:
  "oxygen_loop_by dist_fn coords m i xs acc = Inr acc' \<Longrightarrow>
   acc' = acc @ carbon_hits_by dist_fn coords m i xs"
proof (induction xs arbitrary: acc)
  case Nil
  then show ?case by (simp add: carbon_hits_by_def)
next
  case (Cons x xs)
  obtain j e where x: "x = (j, e)" by (cases x)
  show ?case
  proof (cases "e = ''O''")
    case False
    with Cons x show ?thesis by (simp add: carbon_hits_by_def)
  next
    case True
    from Cons.prems x True obtain acc1 where
      a1: "check_pair_by dist_fn coords m i j acc = Inr acc1" and
      a2: "oxygen_loop_by dist_fn coords m i xs acc1 = Inr acc'"
      by (auto split: sum.splits)
    from a1 obtain l where l: "check_pair_by dist_fn coords m i j [] = Inr l" "acc1 = acc @ l"
      by (subst (asm) check_pair_by_acc) (auto split: sum.splits)
    from Cons.IH[OF a2] have "acc' = acc1 @ carbon_hits_by dist_fn coords m i xs" .
    moreover from check_pair_by_cases[OF l(1)] have "l = [] \<or> l = [(i, j)]" .
    ultimately show ?thesis using l x True
      by (auto simp: carbon_hits_by_def)
  qed
qed

lemma carbon_loop_by_hits:
  "carbon_loop_by dist_fn elements coords m xs acc = Inr acc' \<Longrightarrow>
   acc' = acc @ concat (map (\<lambda>(i, e). if e = ''C''
                                then carbon_hits_by dist_fn coords m i (enumerate 0 elements)
                                else []) xs)"
proof (induction xs arbitrary: acc)
  case Nil
  then show ?case by simp
next
  case (Cons x xs)
  obtain i e where x: "x = (i, e)" by (cases x)
  show ?case
  proof (cases "e = ''C''")
    case False
    with Cons x show ?thesis by simp
  next
    case True
    from Cons.prems x True obtain acc1 where
      a1: "oxygen_loop_by dist_fn coords m i (enumerate 0 elements) acc = Inr acc1" and
      a2: "carbon_loop_by dist_fn elements coords m xs acc1 = Inr acc'"
      by (auto split: sum.splits)
    from oxygen_loop_by_hits[OF a1] Cons.IH[OF a2] x True show ?thesis by simp
  qed
qed

lemma enumerate_as_map: "enumerate 0 xs = map (\<lambda>j. (j, xs ! j)) [0..<length xs]"
proof (rule nth_equalityI)
  show "length (enumerate 0 xs) = length (map (\<lambda>j. (j, xs ! j)) [0..<length xs])" by simp
next
  fix i assume "i < length (enumerate 0 xs)"
  then show "enumerate 0 xs ! i = map (\<lambda>j. (j, xs ! j)) [0..<length xs] ! i"
    by (simp add: nth_enumerate_eq)
qed

lemma hits_by_as_filter:
  "(if elements ! i = ''C'' then carbon_hits_by dist_fn coords m i (enumerate 0 elements) else [])
   = filter (accepts_by dist_fn elements coords m) (map (Pair i) [0..<length elements])"
  by (simp add: carbon_hits_by_def enumerate_as_map filter_map comp_def accepts_by_def)

lemma scan_by_as_filter:
  "concat (map (\<lambda>(i, e). if e = ''C''
                   then carbon_hits_by dist_fn coords m i (enumerate 0 elements) else [])
             (enumerate 0 elements))
   = filter (accepts_by dist_fn elements coords m)
       (List.product [0..<length elements] [0..<length elements])"
proof -
  have "concat (map (\<lambda>(i, e). if e = ''C''
                        then carbon_hits_by dist_fn coords m i (enumerate 0 elements) else [])
             (enumerate 0 elements))
     = concat (map (\<lambda>i. filter (accepts_by dist_fn elements coords m)
                          (map (Pair i) [0..<length elements]))
         [0..<length elements])"
    by (simp add: enumerate_as_map comp_def hits_by_as_filter)
  also have "\<dots> = filter (accepts_by dist_fn elements coords m)
       (List.product [0..<length elements] [0..<length elements])"
    by (simp add: product_concat_map filter_concat comp_def)
  finally show ?thesis .
qed

lemma carbon_loop_by_scan:
  assumes "carbon_loop_by dist_fn elements coords m (enumerate 0 elements) [] = Inr co_pairs"
  shows "co_pairs = filter (accepts_by dist_fn elements coords m)
       (List.product [0..<length elements] [0..<length elements])"
  using carbon_loop_by_hits[OF assms] by (simp add: scan_by_as_filter)

text \<open>The loop that drops repeated keys changes nothing when the keys are distinct.\<close>

lemma unique_loop_distinct:
  "distinct (map sorted_key ps) \<Longrightarrow> sorted_key ` set ps \<inter> seen = {} \<Longrightarrow>
   unique_loop ps seen acc = acc @ ps"
proof (induction ps arbitrary: seen acc)
  case Nil
  then show ?case by simp
next
  case (Cons p ps)
  from Cons.prems have "sorted_key p \<notin> seen" by auto
  moreover from Cons.prems have "sorted_key ` set ps \<inter> insert (sorted_key p) seen = {}" by auto
  moreover from Cons.prems have "distinct (map sorted_key ps)" by simp
  ultimately show ?case using Cons.IH[of "insert (sorted_key p) seen" "acc @ [p]"]
    by (simp add: Let_def)
qed

lemma sorted_key_eq:
  "sorted_key (c, o1) = sorted_key (c', o') \<Longrightarrow> (c = c' \<and> o1 = o') \<or> (c = o' \<and> o1 = c')"
  by (auto simp: sorted_key_def min_def max_def split: if_splits)

lemma accepted_by_keys_inj:
  "inj_on sorted_key {p. accepts_by dist_fn elements coords m p}"
proof (rule inj_onI)
  fix p q
  assume p: "p \<in> {p. accepts_by dist_fn elements coords m p}"
    and q: "q \<in> {p. accepts_by dist_fn elements coords m p}"
    and k: "sorted_key p = sorted_key q"
  obtain c o1 where pc: "p = (c, o1)" by (cases p)
  obtain c' o' where qc: "q = (c', o')" by (cases q)
  from p pc have 1: "elements ! c = ''C''" "elements ! o1 = ''O''" by (auto simp: accepts_by_def)
  from q qc have 2: "elements ! c' = ''C''" "elements ! o' = ''O''" by (auto simp: accepts_by_def)
  from sorted_key_eq[OF k[unfolded pc qc]] 1 2 show "p = q" using pc qc by auto
qed

lemma distinct_keys_by_scan:
  "distinct (map sorted_key
     (filter (accepts_by dist_fn elements coords m) (List.product [0..<n] [0..<n])))"
proof -
  have "distinct (filter (accepts_by dist_fn elements coords m) (List.product [0..<n] [0..<n]))"
    by (simp add: distinct_product)
  moreover have "inj_on sorted_key
      (set (filter (accepts_by dist_fn elements coords m) (List.product [0..<n] [0..<n])))"
    by (rule inj_on_subset[OF accepted_by_keys_inj]) auto
  ultimately show ?thesis by (simp add: distinct_map)
qed

lemma find_CO_pairs_by_scan:
  assumes "find_CO_pairs_by dist_fn elements coords m = Inr pairs"
  shows "pairs = filter (accepts_by dist_fn elements coords m)
       (List.product [0..<length elements] [0..<length elements])"
proof -
  from assms obtain co_pairs where
    c: "carbon_loop_by dist_fn elements coords m (enumerate 0 elements) [] = Inr co_pairs" and
    u: "pairs = unique_loop co_pairs {} []"
    by (auto simp: find_CO_pairs_by_def split: sum.splits)
  from carbon_loop_by_scan[OF c] have s: "co_pairs = filter (accepts_by dist_fn elements coords m)
       (List.product [0..<length elements] [0..<length elements])" .
  have "unique_loop co_pairs {} [] = [] @ co_pairs"
    by (rule unique_loop_distinct) (simp_all add: s distinct_keys_by_scan)
  with u s show ?thesis by simp
qed

text \<open>With \<open>distance\<close> for the parameter, the definitions are those of the program.\<close>

lemma check_pair_by_distance:
  "check_pair_by distance coords m i j acc = check_pair coords m i j acc"
  by (simp add: check_pair_by_def check_pair_def)

lemma oxygen_loop_by_distance:
  "oxygen_loop_by distance coords m i xs acc = oxygen_loop coords m i xs acc"
  by (induction xs arbitrary: acc) (auto simp: check_pair_by_distance split: sum.splits)

lemma carbon_loop_by_distance:
  "carbon_loop_by distance elements coords m xs acc = carbon_loop elements coords m xs acc"
  by (induction xs arbitrary: acc) (auto simp: oxygen_loop_by_distance split: sum.splits)

lemma find_CO_pairs_by_distance:
  "find_CO_pairs_by distance elements coords m = find_CO_pairs elements coords m"
  by (simp add: find_CO_pairs_by_def find_CO_pairs_def carbon_loop_by_distance)

lemma accepts_by_distance:
  "accepts_by distance elements coords m = accepts elements coords m"
  by (rule ext) (simp add: accepts_by_def accepts_def check_pair_by_distance)

lemma find_CO_pairs_scan:
  assumes "find_CO_pairs elements coords m = Inr pairs"
  shows "pairs = filter (accepts elements coords m)
       (List.product [0..<length elements] [0..<length elements])"
  using find_CO_pairs_by_scan[of distance elements coords m pairs] assms
  by (simp add: find_CO_pairs_by_distance accepts_by_distance)

subsection \<open>When \<^verbatim>\<open>find_CO_pairs\<close> raises\<close>










subsection \<open>The concrete structures\<close>

lemma dicarbonyl_read:
  "read_xyz_lines dicarbonyl_lines
     = Inr (dicarbonyl_elements, dicarbonyl_coords, ''two carbonyls'', [])"
  unfolding dicarbonyl_lines_def dicarbonyl_elements_def dicarbonyl_coords_def
  by code_simp

lemma dicarbonyl_metal: "find_metal_center dicarbonyl_elements dicarbonyl_coords = Some 0"
  unfolding dicarbonyl_elements_def
  by (simp add: find_metal_center_def CENTER_METALS_def)

lemma dicarbonyl_pairs:
  "find_CO_pairs dicarbonyl_elements dicarbonyl_coords (Some 0) = Inr [(1, 2), (3, 4)]"
  unfolding dicarbonyl_elements_def dicarbonyl_coords_def
  by (simp add: find_CO_pairs_def check_pair_def py_getitem_def sorted_key_def
      co_min_sqrt co_max_sqrt mc_max_sqrt power2_eq_square)

lemma carboxylate_read:
  "read_xyz_lines carboxylate_lines
     = Inr (carboxylate_elements, carboxylate_coords, ''one carbon, two oxygens'', [])"
  unfolding carboxylate_lines_def carboxylate_elements_def carboxylate_coords_def
  by code_simp

lemma carboxylate_metal: "find_metal_center carboxylate_elements carboxylate_coords = Some 0"
  unfolding carboxylate_elements_def
  by (simp add: find_metal_center_def CENTER_METALS_def)

lemma carboxylate_pairs:
  "find_CO_pairs carboxylate_elements carboxylate_coords (Some 0) = Inr [(1, 2), (1, 3)]"
  unfolding carboxylate_elements_def carboxylate_coords_def
  by (simp add: find_CO_pairs_def check_pair_def py_getitem_def sorted_key_def
      co_min_sqrt co_max_sqrt mc_max_sqrt power2_eq_square)
     (simp_all add: CO_BOND_MIN_def CO_BOND_MAX_def M_C_MAX_def)

lemma monocarbonyl_read:
  "read_xyz_lines monocarbonyl_lines
     = Inr (monocarbonyl_elements, monocarbonyl_coords, ''one carbonyl'', [])"
  unfolding monocarbonyl_lines_def monocarbonyl_elements_def monocarbonyl_coords_def
  by code_simp

lemma monocarbonyl_metal: "find_metal_center monocarbonyl_elements monocarbonyl_coords = Some 0"
  unfolding monocarbonyl_elements_def
  by (simp add: find_metal_center_def CENTER_METALS_def)

lemma monocarbonyl_pairs:
  "find_CO_pairs monocarbonyl_elements monocarbonyl_coords (Some 0) = Inr [(1, 2)]"
  unfolding monocarbonyl_elements_def monocarbonyl_coords_def
  by (simp add: find_CO_pairs_def check_pair_def py_getitem_def sorted_key_def
      co_min_sqrt co_max_sqrt mc_max_sqrt power2_eq_square)

subsection \<open>What the detector returns\<close>

lemma product_lex_sorted:
  fixes xs ys :: "nat list"
  assumes "sorted_wrt (<) xs" and "sorted_wrt (<) ys"
  shows "sorted_wrt (\<lambda>p q. fst p < fst q \<or> (fst p = fst q \<and> snd p < snd q))
           (List.product xs ys)"
  using assms
proof (induction xs)
  case Nil
  then show ?case by simp
next
  case (Cons x xs)
  have "sorted_wrt (\<lambda>p q. fst p < fst q \<or> (fst p = fst q \<and> snd p < snd q)) (map (Pair x) ys)"
    using Cons.prems(2) by (simp add: sorted_wrt_map)
  moreover have "sorted_wrt (\<lambda>p q. fst p < fst q \<or> (fst p = fst q \<and> snd p < snd q))
      (List.product xs ys)"
    using Cons by simp
  moreover have "\<forall>p\<in>set (map (Pair x) ys). \<forall>q\<in>set (List.product xs ys).
      fst p < fst q \<or> (fst p = fst q \<and> snd p < snd q)"
    using Cons.prems(1) by auto
  ultimately show ?case unfolding List.product.simps sorted_wrt_append by blast
qed

text \<open>
  C6. The detector returns the accepted pairs in the order of its scan: the list is the
  sequence of all pairs of positions, carbon position ascending and, for one carbon,
  oxygen position ascending, with the pairs that fail a test left out.
\<close>

theorem find_CO_pairs_scan_order:
  assumes "find_CO_pairs elements coords metal_index = Inr pairs"
  shows "pairs = filter (accepts elements coords metal_index)
                   (List.product [0..<length elements] [0..<length elements])
         \<and> sorted_wrt (\<lambda>p q. fst p < fst q \<or> (fst p = fst q \<and> snd p < snd q)) pairs"
proof -
  have s: "pairs = filter (accepts elements coords metal_index)
                   (List.product [0..<length elements] [0..<length elements])"
    by (rule find_CO_pairs_scan[OF assms])
  have "sorted_wrt (\<lambda>p q. fst p < fst q \<or> (fst p = fst q \<and> snd p < snd q))
          (List.product [0..<length elements] [0..<length elements])"
    by (rule product_lex_sorted) simp_all
  then have "sorted_wrt (\<lambda>p q. fst p < fst q \<or> (fst p = fst q \<and> snd p < snd q)) pairs"
    unfolding s by (rule sorted_wrt_filter)
  with s show ?thesis by simp
qed

theorem find_CO_pairs_scan_order_witness:
  "find_CO_pairs dicarbonyl_elements dicarbonyl_coords (Some 0) = Inr [(1, 2), (3, 4)]
   \<and> [(1, 2), (3, 4)]
       = filter (accepts dicarbonyl_elements dicarbonyl_coords (Some 0))
           (List.product [0..<length dicarbonyl_elements] [0..<length dicarbonyl_elements])
   \<and> sorted_wrt (\<lambda>p q. fst p < fst q \<or> (fst p = fst q \<and> snd p < snd q))
        [(1 :: nat, 2 :: nat), (3, 4)]"
  using dicarbonyl_pairs find_CO_pairs_scan_order[OF dicarbonyl_pairs] by (rule conjI)

lemma accepted_sets_inj:
  "inj_on (\<lambda>p. {fst p, snd p}) {p. accepts elements coords m p}"
proof (rule inj_onI)
  fix p q
  assume p: "p \<in> {p. accepts elements coords m p}" and q: "q \<in> {p. accepts elements coords m p}"
    and k: "{fst p, snd p} = {fst q, snd q}"
  from p have 1: "elements ! fst p = ''C''" "elements ! snd p = ''O''"
    by (auto simp: accepts_def split: prod.splits)
  from q have 2: "elements ! fst q = ''C''" "elements ! snd q = ''O''"
    by (auto simp: accepts_def split: prod.splits)
  from k have "(fst p = fst q \<and> snd p = snd q) \<or> (fst p = snd q \<and> snd p = fst q)"
    by (simp add: doubleton_eq_iff)
  with 1 2 show "p = q" by (auto simp: prod_eq_iff)
qed

lemma returned_pairs_labelled:
  assumes "find_CO_pairs elements coords metal_index = Inr pairs"
  shows "\<forall>p\<in>set pairs. fst p < length elements \<and> snd p < length elements
            \<and> elements ! fst p = ''C'' \<and> elements ! snd p = ''O'' \<and> fst p \<noteq> snd p"
  unfolding find_CO_pairs_scan[OF assms] by (auto simp: accepts_def)

lemma returned_pairs_distinct_sets:
  assumes "find_CO_pairs elements coords metal_index = Inr pairs"
  shows "distinct (map (\<lambda>p. {fst p, snd p}) pairs)"
proof -
  have s: "pairs = filter (accepts elements coords metal_index)
                   (List.product [0..<length elements] [0..<length elements])"
    by (rule find_CO_pairs_scan[OF assms])
  have "distinct pairs" unfolding s by (simp add: distinct_product)
  moreover have "inj_on (\<lambda>p. {fst p, snd p}) (set pairs)"
    by (rule inj_on_subset[OF accepted_sets_inj[of elements coords metal_index]])
       (auto simp: s)
  ultimately show ?thesis by (simp add: distinct_map)
qed

text \<open>
  C9. Every pair the detector returns holds two positions of the element list, a carbon
  first and an oxygen second, hence two different positions; and no two returned pairs
  cover the same set of positions.
\<close>

theorem find_CO_pairs_well_formed:
  assumes "find_CO_pairs elements coords metal_index = Inr pairs"
  shows "(\<forall>p\<in>set pairs. fst p < length elements \<and> snd p < length elements
            \<and> elements ! fst p = ''C'' \<and> elements ! snd p = ''O'' \<and> fst p \<noteq> snd p)
         \<and> distinct (map (\<lambda>p. {fst p, snd p}) pairs)"
  using returned_pairs_labelled[OF assms] returned_pairs_distinct_sets[OF assms]
  by (rule conjI)

theorem find_CO_pairs_well_formed_witness:
  "find_CO_pairs dicarbonyl_elements dicarbonyl_coords (Some 0) = Inr [(1, 2), (3, 4)]
   \<and> (1 :: nat) < length dicarbonyl_elements \<and> (2 :: nat) < length dicarbonyl_elements
   \<and> dicarbonyl_elements ! 1 = ''C'' \<and> dicarbonyl_elements ! 2 = ''O''
   \<and> distinct (map (\<lambda>p. {fst p, snd p}) [(1 :: nat, 2 :: nat), (3, 4)])"
  using dicarbonyl_pairs find_CO_pairs_well_formed[OF dicarbonyl_pairs] by simp





subsection \<open>The deletion step\<close>

lemma keep_loop_nths:
  "keep_loop (enumerate k zs) D ne nc =
     (ne @ nths (map fst zs) {j. j + k \<notin> D}, nc @ nths (map snd zs) {j. j + k \<notin> D})"
proof (induction zs arbitrary: k ne nc)
  case Nil
  then show ?case by simp
next
  case (Cons z zs)
  obtain e c where z: "z = (e, c)" by (cases z)
  show ?case using Cons.IH[of "Suc k"] z by (simp add: nths_Cons)
qed

lemma keep_loop_pipeline:
  assumes "length elements = length coords"
  shows "keep_loop (enumerate 0 (zip elements coords)) D [] []
           = (nths elements (- D), nths coords (- D))"
proof -
  have "{j. j \<notin> D} = - D" by auto
  with keep_loop_nths[of 0 "zip elements coords" D "[]" "[]"] assms show ?thesis by simp
qed

lemma zip_upt_as_map: "zip xs [0..<length xs] = map (\<lambda>i. (xs ! i, i)) [0..<length xs]"
  by (rule nth_equalityI) simp_all

lemma nths_as_map:
  "nths xs (- D) = map (\<lambda>i. xs ! i) (filter (\<lambda>i. i \<notin> D) [0..<length xs])"
  by (simp add: nths_def zip_upt_as_map filter_map comp_def)

lemma length_nths_compl:
  assumes "D \<subseteq> {..<length xs}"
  shows "length (nths xs (- D)) = length xs - card D"
proof -
  have "{i. i < length xs \<and> i \<in> - D} = {..<length xs} - D" by auto
  moreover have "finite D" using assms finite_subset by blast
  ultimately show ?thesis using assms by (simp add: length_nths card_Diff_subset)
qed

lemma delete_two: "delete_loop (take 2 ((c1, o1) # (c2, o2) # rest)) {} = {c1, o1, c2, o2}"
  by (auto simp: numeral_2_eq_2)

subsection \<open>Reader and metal search\<close>

lemma parse_atom_lines_lengths:
  "parse_atom_lines ls es cs = Inr (es', cs') \<Longrightarrow> length es = length cs
     \<Longrightarrow> length es' = length cs'"
proof (induction ls arbitrary: es cs)
  case Nil
  then show ?case by simp
next
  case (Cons l ls)
  show ?case
  proof (cases "strip l = []")
    case True
    with Cons show ?thesis by simp
  next
    case False
    with Cons.prems obtain x y z where
      "parse_atom_lines ls (es @ [split l ! 0]) (cs @ [(x, y, z)]) = Inr (es', cs')"
      by (auto simp: Let_def split: if_splits option.splits)
    from Cons.IH[OF this] Cons.prems(2) show ?thesis by simp
  qed
qed

lemma read_xyz_lines_lengths:
  "read_xyz_lines lines = Inr (elements, coords, comment, extra)
     \<Longrightarrow> length elements = length coords"
  by (auto simp: read_xyz_lines_def Let_def split: if_splits option.splits sum.splits
      dest: parse_atom_lines_lengths)

lemma read_xyz_lengths:
  "read_xyz fs path = Inr (elements, coords, comment, extra)
     \<Longrightarrow> length elements = length coords"
  by (auto simp: read_xyz_def split: option.splits dest: read_xyz_lines_lengths)

lemma first_metal_Some:
  "first_metal (enumerate k es) = Some m \<Longrightarrow>
     k \<le> m \<and> m < k + length es \<and> es ! (m - k) \<in> CENTER_METALS
     \<and> (\<forall>i. k \<le> i \<and> i < m \<longrightarrow> es ! (i - k) \<notin> CENTER_METALS)"
proof (induction es arbitrary: k)
  case Nil
  then show ?case by simp
next
  case (Cons e es)
  show ?case
  proof (cases "e \<in> CENTER_METALS")
    case True
    with Cons.prems show ?thesis by auto
  next
    case False
    with Cons.prems have f: "first_metal (enumerate (Suc k) es) = Some m" by simp
    from Cons.IH[OF f] have ih: "Suc k \<le> m" "m < Suc k + length es"
      "es ! (m - Suc k) \<in> CENTER_METALS"
      "\<forall>i. Suc k \<le> i \<and> i < m \<longrightarrow> es ! (i - Suc k) \<notin> CENTER_METALS" by auto
    have "(e # es) ! (m - k) = es ! (m - Suc k)" using ih(1) by (simp add: nth_Cons')
    moreover have "\<forall>i. k \<le> i \<and> i < m \<longrightarrow> (e # es) ! (i - k) \<notin> CENTER_METALS"
    proof (intro allI impI)
      fix i assume i: "k \<le> i \<and> i < m"
      show "(e # es) ! (i - k) \<notin> CENTER_METALS"
      proof (cases "i = k")
        case True
        with False show ?thesis by simp
      next
        case False
        with i have "Suc k \<le> i" by simp
        moreover from this have "(e # es) ! (i - k) = es ! (i - Suc k)"
          by (simp add: nth_Cons')
        ultimately show ?thesis using ih(4) i by simp
      qed
    qed
    ultimately show ?thesis using ih by auto
  qed
qed

lemma find_metal_center_Some:
  "find_metal_center elements coords = Some m \<Longrightarrow>
     m < length elements \<and> elements ! m \<in> CENTER_METALS
     \<and> (\<forall>i<m. elements ! i \<notin> CENTER_METALS)"
  using first_metal_Some[of 0 elements m] by (simp add: find_metal_center_def)

lemma first_metal_append:
  assumes "\<forall>e\<in>set pre. e \<notin> CENTER_METALS" and "x \<in> CENTER_METALS"
  shows "first_metal (enumerate k (pre @ x # post)) = Some (k + length pre)"
  using assms by (induction pre arbitrary: k) auto

subsection \<open>The pipeline\<close>

text \<open>The complete effect of a call that reaches the writer.\<close>

lemma process_completed:
  assumes r: "read_xyz (files w) path = Inr (elements, coords, comment, extra_lines)"
    and m: "find_metal_center elements coords = Some metal_index"
    and p: "find_CO_pairs elements coords (Some (int metal_index))
              = Inr ((c1, o1) # (c2, o2) # rest)"
  shows "process_xyz_file path w =
     Inr (w\<lparr>files := (files w)(output_path path \<mapsto>
                 xyz_lines (nths elements (- {c1, o1, c2, o2})) (nths coords (- {c1, o1, c2, o2}))
                   comment (Some extra_lines)),
             trace := trace w @
               [Call_read_xyz path, Call_find_metal_center, Call_find_CO_pairs,
                Call_write_xyz (output_path path),
                Print (Completed (basename path) (length elements)
                        (length (nths elements (- {c1, o1, c2, o2}))) 2
                        (basename (output_path path)))]\<rparr>)"
proof -
  from find_metal_center_Some[OF m] have ne: "elements \<noteq> []" by auto
  from read_xyz_lengths[OF r] have len: "length elements = length coords" .
  obtain base ext where se: "splitext path = (base, ext)" by (cases "splitext path")
  have k: "keep_loop (enumerate 0 (zip elements coords)) {c1, o1, c2, o2} [] []
      = (nths elements (- {c1, o1, c2, o2}), nths coords (- {c1, o1, c2, o2}))"
    by (rule keep_loop_pipeline[OF len])
  show ?thesis
    unfolding process_xyz_file_def
    using ne by (simp add: Let_def numeral_2_eq_2[symmetric] log_event_def r m p se k
        delete_two output_path_def write_xyz_def
        del: delete_loop.simps take_Suc_Cons take_Cons_numeral)
qed

text \<open>The positions of the first two pairs: three or four of them, all inside the list.\<close>

lemma first_two_pairs:
  assumes p: "find_CO_pairs elements coords metal_index = Inr ((c1, o1) # (c2, o2) # rest)"
  shows "{c1, o1, c2, o2} \<subseteq> {..<length elements}"
    and "card {c1, o1, c2, o2} = (if c1 = c2 \<or> o1 = o2 then 3 else 4)"
    and "\<forall>i\<in>{c1, o1, c2, o2}. elements ! i = ''C'' \<or> elements ! i = ''O''"
proof -
  from returned_pairs_labelled[OF p] returned_pairs_distinct_sets[OF p]
  have wf: "c1 < length elements" "o1 < length elements" "c2 < length elements"
      "o2 < length elements" "elements ! c1 = ''C''" "elements ! o1 = ''O''"
      "elements ! c2 = ''C''" "elements ! o2 = ''O''"
    and d: "{c1, o1} \<noteq> {c2, o2}"
    by auto
  show "{c1, o1, c2, o2} \<subseteq> {..<length elements}" using wf by simp
  show "\<forall>i\<in>{c1, o1, c2, o2}. elements ! i = ''C'' \<or> elements ! i = ''O''" using wf by simp
  have n: "c1 \<noteq> o1" "c1 \<noteq> o2" "c2 \<noteq> o1" "c2 \<noteq> o2" using wf by auto
  from d have "\<not> (c1 = c2 \<and> o1 = o2)" by auto
  with n show "card {c1, o1, c2, o2} = (if c1 = c2 \<or> o1 = o2 then 3 else 4)"
    by (auto simp: card_insert_if)
qed

lemma nths_split_at:
  assumes "m < length xs" and "m \<notin> D"
  shows "nths xs (- D)
           = nths (take m xs) (- D) @ xs ! m # nths (drop (Suc m) xs) {j. j + Suc m \<notin> D}"
proof -
  have "nths xs (- D) = nths (take m xs @ xs ! m # drop (Suc m) xs) (- D)"
    using id_take_nth_drop[OF assms(1)] by simp
  also have "\<dots> = nths (take m xs) (- D)
                    @ nths (xs ! m # drop (Suc m) xs) {j. j + m \<in> - D}"
    using assms(1) by (simp add: nths_append min_def)
  also have "nths (xs ! m # drop (Suc m) xs) {j. j + m \<in> - D}
               = xs ! m # nths (drop (Suc m) xs) {j. j + Suc m \<notin> D}"
    using assms(2) by (simp add: nths_Cons)
  finally show ?thesis .
qed

lemma length_nths_take:
  "m \<le> length xs \<Longrightarrow> length (nths (take m xs) (- D)) = card {i. i < m \<and> i \<notin> D}"
  by (simp add: length_nths min_def)

subsection \<open>Concrete runs\<close>

lemma output_path_examples:
  "output_path ''run/a.xyz'' = ''run/a_d.xyz''" "output_path ''m.xyz'' = ''m_d.xyz''"
  "basename ''run/a.xyz'' = ''a.xyz''" "basename ''run/a_d.xyz'' = ''a_d.xyz''"
  "basename ''m.xyz'' = ''m.xyz''" "basename ''m_d.xyz'' = ''m_d.xyz''"
  "basename ''b.xyz'' = ''b.xyz''" "basename ''e.xyz'' = ''e.xyz''"
  by (simp_all add: output_path_def splitext_def rfind_def OUTPUT_SUFFIX_def basename_def)

lemma digit_char_table: "map digit_char [0, 1, 2, 3, 4, 5, 6, 7, 8, 9] = ''0123456789''"
  by code_simp

lemma digit_char_simps:
  "digit_char 0 = CHR ''0''" "digit_char 1 = CHR ''1''" "digit_char 2 = CHR ''2''"
  "digit_char 3 = CHR ''3''" "digit_char 4 = CHR ''4''" "digit_char 5 = CHR ''5''"
  "digit_char 6 = CHR ''6''" "digit_char 7 = CHR ''7''" "digit_char 8 = CHR ''8''"
  "digit_char 9 = CHR ''9''"
  using digit_char_table by simp_all

lemma str_nat_digits: "str_nat 0 = ''0''" "str_nat 1 = ''1''"
  using digit_char_simps(1,2) by (simp_all add: str_nat.simps)

lemma zero_pad_zero: "zero_pad 6 ''0'' = ''000000''"
  by code_simp

lemma zero_formatted: "format_6f (Finite 0) = ''0.000000''"
proof -
  have r: "nat (round_half_even (\<bar>0 :: real\<bar> * 10 ^ 6)) = 0"
    by (simp add: round_half_even_def)
  have d: "(0 :: nat) div 10 ^ 6 = 0" "(0 :: nat) mod 10 ^ 6 = 0" by simp_all
  show ?thesis
    unfolding format_6f_def pyfloat.case Let_def r d str_nat_digits zero_pad_zero by simp
qed

lemma zero_field: "rjust 12 (format_6f (Finite 0)) = ''    0.000000''"
  unfolding zero_formatted by code_simp

lemma metal_line:
  "xyz_lines [e] [(Finite 0, Finite 0, Finite 0)] comment (Some [])
     = [''1'', comment, ljust 2 e @ ''      0.000000      0.000000      0.000000'']"
  using str_nat_digits(2) by (simp add: xyz_lines_def atom_line_def zero_field)

lemma dicarbonyl_survivors:
  "nths dicarbonyl_elements (- {1, 2, 3, 4}) = [''Ir'']"
  "nths dicarbonyl_coords (- {1, 2, 3, 4}) = [(Finite 0, Finite 0, Finite 0)]"
  by (simp_all add: dicarbonyl_elements_def dicarbonyl_coords_def nths_as_map upt_rec_numeral)

lemma carboxylate_survivors:
  "nths carboxylate_elements (- {1, 2, 1, 3}) = [''Fe'']"
  "nths carboxylate_coords (- {1, 2, 1, 3}) = [(Finite 0, Finite 0, Finite 0)]"
  by (simp_all add: carboxylate_elements_def carboxylate_coords_def nths_as_map upt_rec_numeral)

lemma dicarbonyl_world_read:
  "read_xyz (files dicarbonyl_world) ''run/a.xyz''
     = Inr (dicarbonyl_elements, dicarbonyl_coords, ''two carbonyls'', [])"
  by (simp add: read_xyz_def dicarbonyl_world_def dicarbonyl_read)

lemma carboxylate_world_read:
  "read_xyz (files carboxylate_world) ''m.xyz''
     = Inr (carboxylate_elements, carboxylate_coords, ''one carbon, two oxygens'', [])"
  by (simp add: read_xyz_def carboxylate_world_def carboxylate_read)

lemma monocarbonyl_world_read:
  "read_xyz (files monocarbonyl_world) ''b.xyz''
     = Inr (monocarbonyl_elements, monocarbonyl_coords, ''one carbonyl'', [])"
  by (simp add: read_xyz_def monocarbonyl_world_def monocarbonyl_read)

lemma empty_read_lines: "read_xyz_lines [''0'', ''nothing''] = Inr ([], [], ''nothing'', [])"
  by code_simp

lemma empty_world_read:
  "read_xyz (files empty_world) ''e.xyz'' = Inr ([], [], ''nothing'', [])"
  by (simp add: read_xyz_def empty_world_def empty_read_lines)

lemma dicarbonyl_run:
  "process_xyz_file ''run/a.xyz'' dicarbonyl_world =
     Inr \<lparr>files = [''run/a.xyz'' \<mapsto> dicarbonyl_lines,
                   ''run/a_d.xyz'' \<mapsto>
                     [''1'', ''two carbonyls'',
                      ''Ir      0.000000      0.000000      0.000000'']],
          trace = [Call_read_xyz ''run/a.xyz'', Call_find_metal_center, Call_find_CO_pairs,
                   Call_write_xyz ''run/a_d.xyz'',
                   Print (Completed ''a.xyz'' 5 1 2 ''a_d.xyz'')]\<rparr>"
proof -
  have p: "find_CO_pairs dicarbonyl_elements dicarbonyl_coords (Some (int 0))
             = Inr ((1, 2) # (3, 4) # [])"
    using dicarbonyl_pairs by simp
  have l: "length dicarbonyl_elements = 5" by (simp add: dicarbonyl_elements_def)
  have j: "ljust 2 ''Ir'' = ''Ir''" by (simp add: ljust_def)
  show ?thesis
    unfolding process_completed[OF dicarbonyl_world_read dicarbonyl_metal p]
      dicarbonyl_survivors metal_line output_path_examples l j
    by (simp add: dicarbonyl_world_def)
qed

lemma carboxylate_run:
  "process_xyz_file ''m.xyz'' carboxylate_world =
     Inr \<lparr>files = [''m.xyz'' \<mapsto> carboxylate_lines,
                   ''m_d.xyz'' \<mapsto>
                     [''1'', ''one carbon, two oxygens'',
                      ''Fe      0.000000      0.000000      0.000000'']],
          trace = [Call_read_xyz ''m.xyz'', Call_find_metal_center, Call_find_CO_pairs,
                   Call_write_xyz ''m_d.xyz'',
                   Print (Completed ''m.xyz'' 4 1 2 ''m_d.xyz'')]\<rparr>"
proof -
  have p: "find_CO_pairs carboxylate_elements carboxylate_coords (Some (int 0))
             = Inr ((1, 2) # (1, 3) # [])"
    using carboxylate_pairs by simp
  have l: "length carboxylate_elements = 4" by (simp add: carboxylate_elements_def)
  have j: "ljust 2 ''Fe'' = ''Fe''" by (simp add: ljust_def)
  show ?thesis
    unfolding process_completed[OF carboxylate_world_read carboxylate_metal p]
      carboxylate_survivors metal_line output_path_examples l j
    by (simp add: carboxylate_world_def)
qed

subsection \<open>Claims about the pipeline\<close>

text \<open>
  C1 does not hold as stated: the first two pairs may share an atom. In the carboxylate
  structure one carbon is within range of two oxygens; the detector returns the pairs
  \<open>(1, 2)\<close> and \<open>(1, 3)\<close>, three atoms are deleted, and the file written for the four
  input atoms declares one atom, not zero.
\<close>

theorem shared_carbon_removes_three:
  "read_xyz (files carboxylate_world) ''m.xyz''
     = Inr (carboxylate_elements, carboxylate_coords, ''one carbon, two oxygens'', [])
   \<and> length carboxylate_elements = 4
   \<and> find_metal_center carboxylate_elements carboxylate_coords = Some 0
   \<and> find_CO_pairs carboxylate_elements carboxylate_coords (Some 0) = Inr [(1, 2), (1, 3)]
   \<and> process_xyz_file ''m.xyz'' carboxylate_world =
       Inr \<lparr>files = [''m.xyz'' \<mapsto> carboxylate_lines,
                     ''m_d.xyz'' \<mapsto>
                       [''1'', ''one carbon, two oxygens'',
                        ''Fe      0.000000      0.000000      0.000000'']],
            trace = [Call_read_xyz ''m.xyz'', Call_find_metal_center, Call_find_CO_pairs,
                     Call_write_xyz ''m_d.xyz'',
                     Print (Completed ''m.xyz'' 4 1 2 ''m_d.xyz'')]\<rparr>"
  using carboxylate_world_read carboxylate_metal carboxylate_pairs carboxylate_run
  by (simp add: carboxylate_elements_def)

text \<open>
  C1, amended. When the detector returns at least two pairs, the file written holds the
  input atoms less the positions of the first two pairs: four atoms fewer when the two
  pairs share no atom, three fewer when they share their carbon or their oxygen. The
  count line of the file and the number of its atom records agree with that.
\<close>

theorem deletion_count:
  assumes "read_xyz (files w) path = Inr (elements, coords, comment, extra_lines)"
    and "find_metal_center elements coords = Some metal_index"
    and "find_CO_pairs elements coords (Some (int metal_index))
           = Inr ((c1, o1) # (c2, o2) # rest)"
    and "removed = (if c1 = c2 \<or> o1 = o2 then 3 else 4)"
  shows "\<exists>w' new_elements new_coords.
           process_xyz_file path w = Inr w'
           \<and> files w' (output_path path)
               = Some (str_nat (length elements - removed) # comment
                        # map atom_line (zip new_elements new_coords) @ extra_lines)
           \<and> length new_elements = length elements - removed
           \<and> length new_coords = length elements - removed
           \<and> removed \<le> length elements
           \<and> card {c1, o1, c2, o2} = removed"
proof -
  let ?D = "{c1, o1, c2, o2}"
  note two = first_two_pairs[OF assms(3)]
  have len: "length elements = length coords" by (rule read_xyz_lengths[OF assms(1)])
  have c: "card ?D = removed" using two(2) assms(4) by simp
  have f: "finite ?D" by simp
  have le: "removed \<le> length elements"
    using card_mono[OF _ two(1)] c by simp
  have n1: "length (nths elements (- ?D)) = length elements - removed"
    using length_nths_compl[OF two(1)] c by simp
  have n2: "length (nths coords (- ?D)) = length elements - removed"
    using length_nths_compl[of ?D coords] two(1) c len by simp
  have "files (w\<lparr>files := (files w)(output_path path \<mapsto>
                 xyz_lines (nths elements (- ?D)) (nths coords (- ?D))
                   comment (Some extra_lines)),
             trace := trace w @
               [Call_read_xyz path, Call_find_metal_center, Call_find_CO_pairs,
                Call_write_xyz (output_path path),
                Print (Completed (basename path) (length elements)
                        (length (nths elements (- ?D))) 2
                        (basename (output_path path)))]\<rparr>) (output_path path)
        = Some (str_nat (length elements - removed) # comment
                 # map atom_line (zip (nths elements (- ?D)) (nths coords (- ?D)))
                 @ extra_lines)"
    by (simp add: xyz_lines_def n1)
  with process_completed[OF assms(1,2,3)] n1 n2 le c show ?thesis by blast
qed

theorem deletion_count_witness:
  "read_xyz (files dicarbonyl_world) ''run/a.xyz''
     = Inr (dicarbonyl_elements, dicarbonyl_coords, ''two carbonyls'', [])
   \<and> find_metal_center dicarbonyl_elements dicarbonyl_coords = Some 0
   \<and> find_CO_pairs dicarbonyl_elements dicarbonyl_coords (Some (int 0))
       = Inr [(1, 2), (3, 4)]
   \<and> (\<exists>w' new_elements new_coords.
         process_xyz_file ''run/a.xyz'' dicarbonyl_world = Inr w'
         \<and> files w' (output_path ''run/a.xyz'')
             = Some (str_nat (length dicarbonyl_elements - 4) # ''two carbonyls''
                      # map atom_line (zip new_elements new_coords) @ [])
         \<and> length new_elements = length dicarbonyl_elements - 4
         \<and> length new_coords = length dicarbonyl_elements - 4
         \<and> 4 \<le> length dicarbonyl_elements
         \<and> card {1, 2, 3, 4 :: nat} = 4)"
proof -
  have p: "find_CO_pairs dicarbonyl_elements dicarbonyl_coords (Some (int 0))
             = Inr ((1, 2) # (3, 4) # [])"
    using dicarbonyl_pairs by simp
  have k: "(4 :: nat) = (if (1 :: nat) = 3 \<or> (2 :: nat) = 4 then 3 else 4)" by simp
  from deletion_count[OF dicarbonyl_world_read dicarbonyl_metal p k]
    dicarbonyl_world_read dicarbonyl_metal p
  show ?thesis by blast
qed

text \<open>
  C4. When the detector returns at least two pairs, the file written holds exactly the
  atoms whose position is not one of the positions of the first two pairs, elements and
  coordinates alike, in the order of their positions in the input.
\<close>

theorem survivors_in_input_order:
  assumes "read_xyz (files w) path = Inr (elements, coords, comment, extra_lines)"
    and "find_metal_center elements coords = Some metal_index"
    and "find_CO_pairs elements coords (Some (int metal_index))
           = Inr ((c1, o1) # (c2, o2) # rest)"
  shows "\<exists>w'. process_xyz_file path w = Inr w'
           \<and> files w' (output_path path)
               = Some (xyz_lines
                   (map (\<lambda>i. elements ! i)
                      (filter (\<lambda>i. i \<notin> {c1, o1, c2, o2}) [0..<length elements]))
                   (map (\<lambda>i. coords ! i)
                      (filter (\<lambda>i. i \<notin> {c1, o1, c2, o2}) [0..<length elements]))
                   comment (Some extra_lines))"
proof -
  have len: "length elements = length coords" by (rule read_xyz_lengths[OF assms(1)])
  show ?thesis
    unfolding process_completed[OF assms] nths_as_map len by simp
qed

theorem survivors_in_input_order_witness:
  "read_xyz (files dicarbonyl_world) ''run/a.xyz''
     = Inr (dicarbonyl_elements, dicarbonyl_coords, ''two carbonyls'', [])
   \<and> find_metal_center dicarbonyl_elements dicarbonyl_coords = Some 0
   \<and> find_CO_pairs dicarbonyl_elements dicarbonyl_coords (Some (int 0))
       = Inr [(1, 2), (3, 4)]
   \<and> (\<exists>w'. process_xyz_file ''run/a.xyz'' dicarbonyl_world = Inr w'
         \<and> files w' (output_path ''run/a.xyz'')
             = Some (xyz_lines
                 (map (\<lambda>i. dicarbonyl_elements ! i)
                    (filter (\<lambda>i. i \<notin> {1, 2, 3, 4}) [0..<length dicarbonyl_elements]))
                 (map (\<lambda>i. dicarbonyl_coords ! i)
                    (filter (\<lambda>i. i \<notin> {1, 2, 3, 4}) [0..<length dicarbonyl_elements]))
                 ''two carbonyls'' (Some [])))"
proof -
  have p: "find_CO_pairs dicarbonyl_elements dicarbonyl_coords (Some (int 0))
             = Inr ((1, 2) # (3, 4) # [])"
    using dicarbonyl_pairs by simp
  from survivors_in_input_order[OF dicarbonyl_world_read dicarbonyl_metal p]
    dicarbonyl_world_read dicarbonyl_metal p
  show ?thesis by blast
qed

text \<open>
  C5. When the detector returns fewer than two pairs, the call prints the warning and
  leaves the files as they were: nothing is written.
\<close>

theorem too_few_pairs_no_output:
  assumes "read_xyz (files w) path = Inr (elements, coords, comment, extra_lines)"
    and "find_metal_center elements coords = Some metal_index"
    and "find_CO_pairs elements coords (Some (int metal_index)) = Inr pairs"
    and "length pairs < 2"
  shows "\<exists>w'. process_xyz_file path w = Inr w'
           \<and> files w' = files w
           \<and> trace w' = trace w @
               [Call_read_xyz path, Call_find_metal_center, Call_find_CO_pairs,
                Print (Warn_few_pairs (basename path) (length pairs))]"
proof -
  from find_metal_center_Some[OF assms(2)] have ne: "elements \<noteq> []" by auto
  show ?thesis
    unfolding process_xyz_file_def using ne assms
    by (simp add: Let_def log_event_def)
qed

theorem too_few_pairs_no_output_witness:
  "read_xyz (files monocarbonyl_world) ''b.xyz''
     = Inr (monocarbonyl_elements, monocarbonyl_coords, ''one carbonyl'', [])
   \<and> find_metal_center monocarbonyl_elements monocarbonyl_coords = Some 0
   \<and> find_CO_pairs monocarbonyl_elements monocarbonyl_coords (Some (int 0)) = Inr [(1, 2)]
   \<and> (\<exists>w'. process_xyz_file ''b.xyz'' monocarbonyl_world = Inr w'
         \<and> files w' = files monocarbonyl_world
         \<and> trace w' = trace monocarbonyl_world @
             [Call_read_xyz ''b.xyz'', Call_find_metal_center, Call_find_CO_pairs,
              Print (Warn_few_pairs (basename ''b.xyz'') (length [(1 :: nat, 2 :: nat)]))])"
proof -
  have p: "find_CO_pairs monocarbonyl_elements monocarbonyl_coords (Some (int 0))
             = Inr [(1, 2)]"
    using monocarbonyl_pairs by simp
  have l: "length [(1 :: nat, 2 :: nat)] < 2" by simp
  from too_few_pairs_no_output[OF monocarbonyl_world_read monocarbonyl_metal p l]
    monocarbonyl_world_read monocarbonyl_metal p
  show ?thesis by blast
qed

text \<open>
  C10. A file the reader accepts without any atom is skipped: the call prints the skip
  message right after the read, without a metal search, a pair detection or a write, and
  leaves the files as they were.
\<close>

theorem no_atoms_skipped:
  assumes "read_xyz (files w) path = Inr ([], coords, comment, extra_lines)"
  shows "\<exists>w'. process_xyz_file path w = Inr w'
           \<and> files w' = files w
           \<and> trace w' = trace w @ [Call_read_xyz path, Print (Skip_no_atoms (basename path))]"
  unfolding process_xyz_file_def using assms by (simp add: Let_def log_event_def)

theorem no_atoms_skipped_witness:
  "read_xyz (files empty_world) ''e.xyz'' = Inr ([], [], ''nothing'', [])
   \<and> (\<exists>w'. process_xyz_file ''e.xyz'' empty_world = Inr w'
         \<and> files w' = files empty_world
         \<and> trace w' = trace empty_world
                        @ [Call_read_xyz ''e.xyz'', Print (Skip_no_atoms (basename ''e.xyz''))])"
  using no_atoms_skipped[OF empty_world_read] empty_world_read by blast

text \<open>
  C8. The metal centre is never deleted. Every deleted position holds a carbon or an
  oxygen, and neither label is in the metal whitelist, so the position of the metal is
  not deleted; in the written structure the first whitelisted atom is the metal centre
  of the input, with its label and coordinates, moved up by the number of deleted
  positions before it.
\<close>

theorem metal_center_survives:
  assumes "read_xyz (files w) path = Inr (elements, coords, comment, extra_lines)"
    and "find_metal_center elements coords = Some metal_index"
    and "find_CO_pairs elements coords (Some (int metal_index))
           = Inr ((c1, o1) # (c2, o2) # rest)"
    and "deleted = {c1, o1, c2, o2}"
    and "k = card {i. i < metal_index \<and> i \<notin> deleted}"
  shows "metal_index \<notin> deleted
         \<and> (\<forall>i\<in>deleted. elements ! i = ''C'' \<or> elements ! i = ''O'')
         \<and> ''C'' \<notin> CENTER_METALS \<and> ''O'' \<notin> CENTER_METALS
         \<and> (\<exists>w' new_elements new_coords.
               process_xyz_file path w = Inr w'
               \<and> files w' (output_path path)
                   = Some (xyz_lines new_elements new_coords comment (Some extra_lines))
               \<and> find_metal_center new_elements new_coords = Some k
               \<and> new_elements ! k = elements ! metal_index
               \<and> new_coords ! k = coords ! metal_index)"
proof -
  note two = first_two_pairs[OF assms(3)]
  note metal = find_metal_center_Some[OF assms(2)]
  have len: "length elements = length coords" by (rule read_xyz_lengths[OF assms(1)])
  have labels: "\<forall>i\<in>deleted. elements ! i = ''C'' \<or> elements ! i = ''O''"
    using two(3) assms(4) by simp
  have white: "''C'' \<notin> CENTER_METALS" "''O'' \<notin> CENTER_METALS"
    by (simp_all add: CENTER_METALS_def)
  have out: "metal_index \<notin> deleted"
  proof
    assume "metal_index \<in> deleted"
    with labels have "elements ! metal_index = ''C'' \<or> elements ! metal_index = ''O''"
      by blast
    with metal white show False by auto
  qed
  have mlt: "metal_index < length elements" "metal_index < length coords"
    using metal len by simp_all
  let ?pre = "nths (take metal_index elements) (- deleted)"
  have e: "nths elements (- deleted)
      = ?pre @ elements ! metal_index
          # nths (drop (Suc metal_index) elements) {j. j + Suc metal_index \<notin> deleted}"
    by (rule nths_split_at[OF mlt(1) out])
  have c: "nths coords (- deleted)
      = nths (take metal_index coords) (- deleted) @ coords ! metal_index
          # nths (drop (Suc metal_index) coords) {j. j + Suc metal_index \<notin> deleted}"
    by (rule nths_split_at[OF mlt(2) out])
  have lp: "length ?pre = k"
    using length_nths_take[of metal_index elements deleted] mlt assms(5) by simp
  have lc: "length (nths (take metal_index coords) (- deleted)) = k"
    using length_nths_take[of metal_index coords deleted] mlt assms(5) by simp
  have "\<forall>x\<in>set (take metal_index elements). x \<notin> CENTER_METALS"
    using metal mlt by (auto simp: in_set_conv_nth)
  then have nometal: "\<forall>x\<in>set ?pre. x \<notin> CENTER_METALS"
    using in_set_nthsD by fast
  have f: "find_metal_center (nths elements (- deleted)) (nths coords (- deleted)) = Some k"
    unfolding find_metal_center_def e
    using first_metal_append[OF nometal, of "elements ! metal_index" 0] metal lp by simp
  have ne: "nths elements (- deleted) ! k = elements ! metal_index"
    unfolding e using lp by (metis nth_append_length)
  have nc: "nths coords (- deleted) ! k = coords ! metal_index"
    unfolding c using lc by (metis nth_append_length)
  have w: "files (w\<lparr>files := (files w)(output_path path \<mapsto>
                 xyz_lines (nths elements (- deleted)) (nths coords (- deleted))
                   comment (Some extra_lines)),
             trace := trace w @
               [Call_read_xyz path, Call_find_metal_center, Call_find_CO_pairs,
                Call_write_xyz (output_path path),
                Print (Completed (basename path) (length elements)
                        (length (nths elements (- deleted))) 2
                        (basename (output_path path)))]\<rparr>) (output_path path)
        = Some (xyz_lines (nths elements (- deleted)) (nths coords (- deleted))
                  comment (Some extra_lines))"
    by simp
  have "\<exists>w' new_elements new_coords.
               process_xyz_file path w = Inr w'
               \<and> files w' (output_path path)
                   = Some (xyz_lines new_elements new_coords comment (Some extra_lines))
               \<and> find_metal_center new_elements new_coords = Some k
               \<and> new_elements ! k = elements ! metal_index
               \<and> new_coords ! k = coords ! metal_index"
    using process_completed[OF assms(1,2,3)] w f ne nc unfolding assms(4) by blast
  with out labels white show ?thesis by blast
qed

theorem metal_center_survives_witness:
  "read_xyz (files dicarbonyl_world) ''run/a.xyz''
     = Inr (dicarbonyl_elements, dicarbonyl_coords, ''two carbonyls'', [])
   \<and> find_metal_center dicarbonyl_elements dicarbonyl_coords = Some 0
   \<and> find_CO_pairs dicarbonyl_elements dicarbonyl_coords (Some (int 0))
       = Inr [(1, 2), (3, 4)]
   \<and> (0 :: nat) \<notin> {1, 2, 3, 4}
   \<and> (\<exists>w' new_elements new_coords.
         process_xyz_file ''run/a.xyz'' dicarbonyl_world = Inr w'
         \<and> files w' (output_path ''run/a.xyz'')
             = Some (xyz_lines new_elements new_coords ''two carbonyls'' (Some []))
         \<and> find_metal_center new_elements new_coords = Some 0
         \<and> new_elements ! 0 = dicarbonyl_elements ! 0
         \<and> new_coords ! 0 = dicarbonyl_coords ! 0)"
proof -
  have p: "find_CO_pairs dicarbonyl_elements dicarbonyl_coords (Some (int 0))
             = Inr ((1, 2) # (3, 4) # [])"
    using dicarbonyl_pairs by simp
  have k: "(0 :: nat) = card {i. i < (0 :: nat) \<and> i \<notin> {1, 2, 3, 4 :: nat}}" by simp
  from metal_center_survives[OF dicarbonyl_world_read dicarbonyl_metal p refl k]
    dicarbonyl_world_read dicarbonyl_metal p
  show ?thesis by blast
qed

subsection \<open>When the reader fails\<close>

lemma parse_atom_lines_error:
  "parse_atom_lines ls es cs = Inl e \<Longrightarrow> e = ValueError"
proof (induction ls arbitrary: es cs)
  case Nil
  then show ?case by simp
next
  case (Cons l ls)
  then show ?case
    by (auto simp: Let_def split: if_splits option.splits)
qed

lemma parse_atom_lines_isl:
  "isl (parse_atom_lines ls es cs)
     \<longleftrightarrow> (\<exists>l\<in>set ls. strip l \<noteq> [] \<and> malformed_record l)"
proof (induction ls arbitrary: es cs)
  case Nil
  then show ?case by simp
next
  case (Cons l ls)
  show ?case
  proof (cases "strip l = []")
    case True
    with Cons.IH[of es cs] show ?thesis by simp
  next
    case False
    show ?thesis
    proof (cases "malformed_record l")
      case True
      with False show ?thesis
        by (auto simp: malformed_record_def Let_def split: option.splits)
    next
      case ok: False
      then obtain x y z where
        "\<not> length (split l) < 4" "py_float (split l ! 1) = Some x"
        "py_float (split l ! 2) = Some y" "py_float (split l ! 3) = Some z"
        by (auto simp: malformed_record_def)
      with False ok Cons.IH[of "es @ [split l ! 0]" "cs @ [(x, y, z)]"] show ?thesis
        by (simp add: Let_def)
    qed
  qed
qed

lemma parse_atom_lines_fails_iff:
  "parse_atom_lines ls es cs = Inl ValueError
     \<longleftrightarrow> (\<exists>l\<in>set ls. strip l \<noteq> [] \<and> malformed_record l)"
proof -
  have "parse_atom_lines ls es cs = Inl ValueError \<longleftrightarrow> isl (parse_atom_lines ls es cs)"
    by (cases "parse_atom_lines ls es cs") (auto dest: parse_atom_lines_error)
  then show ?thesis by (simp add: parse_atom_lines_isl)
qed

lemma py_slice_from_two:
  assumes "2 \<le> length xs"
  shows "py_slice xs 2 (2 + int n) = take n (drop 2 xs)"
proof -
  have "slice_bound (length xs) 2 = 2" using assms by (simp add: slice_bound_def)
  moreover have "slice_bound (length xs) (2 + int n) = min (length xs) (2 + n)"
    by (simp add: slice_bound_def nat_add_distrib)
  moreover have "take (min (length xs) (2 + n) - 2) (drop 2 xs) = take n (drop 2 xs)"
    by (cases "2 + n \<le> length xs") (simp_all add: min_def)
  ultimately show ?thesis by (simp add: py_slice_def)
qed

lemma read_xyz_lines_error: "read_xyz_lines lines = Inl e \<Longrightarrow> e = ValueError"
  by (auto simp: read_xyz_lines_def Let_def
      split: if_splits option.splits sum.splits dest: parse_atom_lines_error)

lemma read_xyz_lines_fails_iff:
  assumes "\<not> (\<exists>n. declared_count lines = Some n \<and> n < 0)"
  shows "read_xyz_lines lines = Inl ValueError \<longleftrightarrow>
           length lines < 2
           \<or> declared_count lines = None
           \<or> (\<exists>n. declared_count lines = Some (int n)
                 \<and> (length lines < 2 + n
                    \<or> (\<exists>l\<in>set (take n (drop 2 lines)).
                          strip l \<noteq> [] \<and> malformed_record l)))"
proof (cases "length lines < 2")
  case True
  then show ?thesis by (simp add: read_xyz_lines_def)
next
  case long: False
  then have d: "declared_count lines = py_int (strip (lines ! 0))"
    by (cases lines) (simp_all add: declared_count_def)
  show ?thesis
  proof (cases "py_int (strip (lines ! 0))")
    case None
    with long d show ?thesis by (simp add: read_xyz_lines_def)
  next
    case (Some k)
    with assms d have "0 \<le> k" by auto
    then obtain n where k: "k = int n" using nonneg_int_cases by blast
    have s: "py_slice lines 2 (2 + int n) = take n (drop 2 lines)"
      using long by (simp add: py_slice_from_two)
    have l: "int (length (take n (drop 2 lines))) < int n \<longleftrightarrow> length lines < 2 + n"
      using long by auto
    have "read_xyz_lines lines = Inl ValueError \<longleftrightarrow>
            length lines < 2 + n
            \<or> parse_atom_lines (take n (drop 2 lines)) [] [] = Inl ValueError"
      using long Some k s l
      by (auto simp: read_xyz_lines_def Let_def split: sum.splits)
    then show ?thesis using long d Some k by (simp add: parse_atom_lines_fails_iff)
  qed
qed

lemma blank_record_read:
  "read_xyz_lines blank_record_lines
     = Inr ([''C''], [(Finite 0, Finite 0, Finite 0)], ''second record blank'', [])"
  unfolding blank_record_lines_def by code_simp

lemma single_line_read: "read_xyz_lines [''0''] = Inl ValueError"
  by (simp add: read_xyz_lines_def)

text \<open>
  A negative count is accepted: the slice of atom lines is then taken with Python's
  negative bounds, and for the count \<open>-1\<close> the comment line is returned as a trailing line.
\<close>

lemma negative_count_read:
  "read_xyz_lines [''-1'', ''comment''] = Inr ([], [], ''comment'', [''comment''])"
  by code_simp

text \<open>
  C2 does not hold as stated. A file that declares two atoms and has a blank line in
  the place of the second record is read without error, as a structure of one atom; and
  a file made of the single line \<open>0\<close> is rejected although its count is a non-negative
  integer and no record is missing or malformed.
\<close>

theorem blank_record_accepted:
  "declared_count blank_record_lines = Some 2
   \<and> read_xyz [''x.xyz'' \<mapsto> blank_record_lines] ''x.xyz''
       = Inr ([''C''], [(Finite 0, Finite 0, Finite 0)], ''second record blank'', [])
   \<and> declared_count [''0''] = Some 0
   \<and> read_xyz [''y.xyz'' \<mapsto> [''0'']] ''y.xyz'' = Inl ValueError"
proof -
  have "declared_count blank_record_lines = Some 2"
    unfolding blank_record_lines_def declared_count_def by code_simp
  moreover have "declared_count [''0''] = Some 0"
    unfolding declared_count_def by code_simp
  ultimately show ?thesis
    by (simp add: read_xyz_def blank_record_read single_line_read)
qed

text \<open>
  C2, amended. For a file whose first line does not hold a negative integer, the reader
  fails, and then with \<^verbatim>\<open>ValueError\<close>, exactly when the file has fewer than two lines,
  or its first line, stripped, is not an integer, or it declares \<open>n\<close> atoms and fewer than
  \<open>n\<close> lines follow the comment line, or one of the \<open>n\<close> lines after the comment is not
  blank and is a malformed record. Blank lines among these \<open>n\<close> are passed over, so the
  structure read may hold fewer than \<open>n\<close> atoms.
\<close>

theorem read_xyz_fails_iff:
  assumes "fs path = Some lines"
    and "\<not> (\<exists>n. declared_count lines = Some n \<and> n < 0)"
  shows "(read_xyz fs path = Inl ValueError \<longleftrightarrow>
            length lines < 2
            \<or> declared_count lines = None
            \<or> (\<exists>n. declared_count lines = Some (int n)
                  \<and> (length lines < 2 + n
                     \<or> (\<exists>l\<in>set (take n (drop 2 lines)).
                           strip l \<noteq> [] \<and> malformed_record l))))
         \<and> read_xyz fs path \<noteq> Inl IndexError \<and> read_xyz fs path \<noteq> Inl OSError
         \<and> read_xyz fs path \<noteq> Inl OverflowError"
proof -
  have r: "read_xyz fs path = read_xyz_lines lines" using assms(1) by (simp add: read_xyz_def)
  have "read_xyz_lines lines \<noteq> Inl IndexError" "read_xyz_lines lines \<noteq> Inl OSError"
    "read_xyz_lines lines \<noteq> Inl OverflowError"
    using read_xyz_lines_error by fastforce+
  with read_xyz_lines_fails_iff[OF assms(2)] show ?thesis unfolding r by blast
qed

theorem read_xyz_fails_iff_witness:
  "[''s.xyz'' \<mapsto> short_lines] ''s.xyz'' = Some short_lines
   \<and> declared_count short_lines = Some 3
   \<and> length short_lines < 2 + 3
   \<and> read_xyz [''s.xyz'' \<mapsto> short_lines] ''s.xyz'' = Inl ValueError"
proof -
  have f: "[''s.xyz'' \<mapsto> short_lines] ''s.xyz'' = Some short_lines" by simp
  have d: "declared_count short_lines = Some (int 3)"
    unfolding short_lines_def declared_count_def by code_simp
  have n: "\<not> (\<exists>n. declared_count short_lines = Some n \<and> n < 0)" using d by simp
  have l: "length short_lines < 2 + 3" by (simp add: short_lines_def)
  from read_xyz_fails_iff[of "[''s.xyz'' \<mapsto> short_lines]" "''s.xyz''" short_lines, OF f n] d l
  have "read_xyz [''s.xyz'' \<mapsto> short_lines] ''s.xyz'' = Inl ValueError" by blast
  with f d l show ?thesis by simp
qed

end
